theory Spec2Isabelle
  imports Complex_Main "HOL-Library.Sublist"
begin

section \<open>Strings as the stream hook and the chat page use them\<close>

text \<open>
  Text is a list of bytes holding UTF-8. The decoded text of every network chunk
  (the value of \<^verbatim>\<open>decoder.decode(value, { stream: true })\<close>) is an input of the model.
  All markers of the wire protocol are ASCII, so byte offsets and code-unit offsets agree
  where the source takes \<^verbatim>\<open>substring(5)\<close>.
\<close>

definition startsWith :: "string \<Rightarrow> string \<Rightarrow> bool" where
  "startsWith s p = (take (length p) s = p)"

fun includes_str :: "string \<Rightarrow> string \<Rightarrow> bool" where
  "includes_str [] p = (p = [])"
| "includes_str (c # cs) p = (startsWith (c # cs) p \<or> includes_str cs p)"

text \<open>\<^verbatim>\<open>buffer.split('\n')\<close>: the pieces between line feeds; never an empty array.\<close>

fun split_newline :: "string \<Rightarrow> string list" where
  "split_newline [] = [[]]"
| "split_newline (c # cs) =
     (if c = CHR 0x0A then [] # split_newline cs
      else (case split_newline cs of [] \<Rightarrow> [[c]] | l # ls \<Rightarrow> (c # l) # ls))"

text \<open>
  The code points \<^verbatim>\<open>String.prototype.trim\<close> strips (ECMAScript WhiteSpace and
  LineTerminator), each as its UTF-8 byte sequence.
\<close>

definition js_whitespace :: "string list" where
  "js_whitespace =
     [[CHR 0x09], [CHR 0x0A], [CHR 0x0B], [CHR 0x0C], [CHR 0x0D], [CHR 0x20],
      [CHR 0xC2, CHR 0xA0],
      [CHR 0xE1, CHR 0x9A, CHR 0x80],
      [CHR 0xE2, CHR 0x80, CHR 0x80], [CHR 0xE2, CHR 0x80, CHR 0x81],
      [CHR 0xE2, CHR 0x80, CHR 0x82], [CHR 0xE2, CHR 0x80, CHR 0x83],
      [CHR 0xE2, CHR 0x80, CHR 0x84], [CHR 0xE2, CHR 0x80, CHR 0x85],
      [CHR 0xE2, CHR 0x80, CHR 0x86], [CHR 0xE2, CHR 0x80, CHR 0x87],
      [CHR 0xE2, CHR 0x80, CHR 0x88], [CHR 0xE2, CHR 0x80, CHR 0x89],
      [CHR 0xE2, CHR 0x80, CHR 0x8A],
      [CHR 0xE2, CHR 0x80, CHR 0xA8], [CHR 0xE2, CHR 0x80, CHR 0xA9],
      [CHR 0xE2, CHR 0x80, CHR 0xAF],
      [CHR 0xE2, CHR 0x81, CHR 0x9F],
      [CHR 0xE3, CHR 0x80, CHR 0x80],
      [CHR 0xEF, CHR 0xBB, CHR 0xBF]]"

function strip_leading :: "string list \<Rightarrow> string \<Rightarrow> string" where
  "strip_leading ws s =
     (case List.find (\<lambda>w. w \<noteq> [] \<and> startsWith s w) ws of
        None \<Rightarrow> s
      | Some w \<Rightarrow> strip_leading ws (drop (length w) s))"
  by pat_completeness auto
termination
proof (relation "measure (\<lambda>(ws, s). length s)")
  show "wf (measure (\<lambda>(ws, s). length s))" by simp
next
  fix ws :: "string list" and s w :: string
  assume "List.find (\<lambda>w. w \<noteq> [] \<and> startsWith s w) ws = Some w"
  then have w: "w \<noteq> []" "take (length w) s = w"
    by (auto simp: find_Some_iff startsWith_def)
  then have "s \<noteq> []" by auto
  with w show "((ws, drop (length w) s), (ws, s)) \<in> measure (\<lambda>(ws, s). length s)"
    by simp
qed

definition trim :: "string \<Rightarrow> string" where
  "trim s = rev (strip_leading (map rev js_whitespace) (rev (strip_leading js_whitespace s)))"

fun string_of_nat :: "nat \<Rightarrow> string" where
  "string_of_nat n =
     (if n < 10 then [''0123456789'' ! n]
      else string_of_nat (n div 10) @ [''0123456789'' ! (n mod 10)])"

declare string_of_nat.simps [simp del]

subsection \<open>The amount pattern of the payment heuristic\<close>

definition is_digit :: "char \<Rightarrow> bool" where
  "is_digit c = (c \<in> set ''0123456789'')"

text \<open>The rupee sign U+20B9 in UTF-8.\<close>

definition rupee :: string where
  "rupee = [CHR 0xE2, CHR 0x82, CHR 0xB9]"

text \<open>
  What the group \<^verbatim>\<open>(\d+\.?\d*)\<close> captures at the head of \<open>r\<close>, given that \<open>r\<close> starts
  with a digit: all the digits, then a dot when one follows, then all the digits after it.
\<close>

definition capture_amount :: "string \<Rightarrow> string" where
  "capture_amount r =
     (let ds = takeWhile is_digit r in
      case dropWhile is_digit r of
        [] \<Rightarrow> ds
      | c # r' \<Rightarrow> if c = CHR ''.'' then ds @ ''.'' @ takeWhile is_digit r' else ds)"

text \<open>
  The match of the rupee sign followed by \<^verbatim>\<open>(\d+\.?\d*)\<close> in the content: the leftmost rupee sign that a digit follows;
  the result is the captured group, \<open>None\<close> when the pattern matches nowhere.
\<close>

fun match_amount :: "string \<Rightarrow> string option" where
  "match_amount [] = None"
| "match_amount (c # cs) =
     (if startsWith (c # cs) rupee \<and>
         (case drop 3 (c # cs) of [] \<Rightarrow> False | d # _ \<Rightarrow> is_digit d)
      then Some (capture_amount (drop 3 (c # cs)))
      else match_amount cs)"

definition digits_value :: "string \<Rightarrow> nat" where
  "digits_value ds = foldl (\<lambda>a c. 10 * a + (of_char c - 48)) 0 ds"

text \<open>
  \<^verbatim>\<open>parseFloat\<close> on a captured group (digits, an optional dot, digits), as the exact
  decimal value; the rounding to a double is outside the model.
\<close>

definition parseFloat :: "string \<Rightarrow> rat" where
  "parseFloat s =
     (let ip = takeWhile is_digit s;
          fp = (case dropWhile is_digit s of
                  [] \<Rightarrow> []
                | c # r \<Rightarrow> if c = CHR ''.'' then takeWhile is_digit r else [])
      in of_nat (digits_value ip) + of_nat (digits_value fp) / 10 ^ length fp)"

section \<open>The stream hook: \<^verbatim>\<open>useChatStream\<close>\<close>

subsection \<open>Events of the wire protocol\<close>

text \<open>
  Structured payloads that the code only hands on (products, cart items, quote data)
  are values of one JSON-like type.
\<close>

datatype js_value =
    JS_null
  | JS_bool bool
  | JS_number rat
  | JS_string string
  | JS_array "js_value list"
  | JS_object "(string \<times> js_value) list"

datatype context_type =
    Success_message | Search_results | Cart_view | Checkout_stage | Error_message
  | Order_confirmation

text \<open>The fields of \<^verbatim>\<open>CartContext\<close> and \<^verbatim>\<open>JourneyContext\<close> that the code reads or writes.\<close>

record cart_context =
  cc_items :: "js_value list option"
  cc_total_items :: "rat option"
  cc_total_value :: "rat option"
  cc_is_empty :: "bool option"
  cc_ready_for_checkout :: "bool option"

record journey_context =
  jc_stage :: string
  jc_next_operations :: "string list option"

record confirm_context =
  cf_order_id :: string
  cf_order_status :: string
  cf_total_amount :: rat

text \<open>\<^verbatim>\<open>ChatApiResponse['data']\<close>, with \<^verbatim>\<open>simple_data?.confirm_context\<close> as one field.\<close>

record response_data =
  rd_success :: "bool option"
  rd_products :: "js_value list option"
  rd_cart_context :: "cart_context option"
  rd_journey_context :: "journey_context option"
  rd_quote_data :: "js_value option"
  rd_confirm_context :: "confirm_context option"

record raw_cart_summary =
  rcs_items :: "js_value list option"
  rcs_total_items :: "rat option"
  rcs_total_value :: "rat option"
  rcs_is_empty :: "bool option"

text \<open>\<^verbatim>\<open>StreamingResponse\<close>: the six typed events.\<close>

datatype streaming_response =
    Thinking string "string option"
  | Conversation_chunk string "string option" "string option"
  | Tool_start string string "string option"
  | Response string "string option" "response_data option" "context_type option"
  | Raw_products "string option" "js_value list option"
  | Raw_cart "string option" "js_value list" "raw_cart_summary option"

text \<open>
  What \<^verbatim>\<open>JSON.parse\<close> returns, as far as the hook looks at it: \<open>null\<close> (reading
  \<^verbatim>\<open>data.type\<close> then throws inside the \<^verbatim>\<open>try\<close>), a value whose \<^verbatim>\<open>type\<close> is one of
  the six the hook routes, or any other value. \<^verbatim>\<open>JSON.parse\<close> itself is a parameter
  of the model, \<open>None\<close> when it throws.
\<close>

datatype json_data = Json_null | Json_other | Json_event streaming_response

type_synonym json_parse = "string \<Rightarrow> json_data option"

datatype js_error = Error_instance string string | Not_an_Error

datatype callback =
    OnThinking string "string option"
  | OnToolStart string string "string option"
  | OnResponse string "string option" "response_data option" "context_type option"
  | OnRawProducts "string option" "js_value list option"
  | OnRawCart "string option" "js_value list" "raw_cart_summary option"
  | OnConversationChunk string "string option" "string option"
  | OnError js_error
  | OnComplete

text \<open>
  What one run of the hook does to the outside, in order: the abort of the previous
  controller, the fetch, the calls of \<^verbatim>\<open>JSON.parse\<close>, the warnings, the callbacks.
\<close>

datatype effect =
    Abort nat
  | Fetch string "string option" nat
  | JSON_parse string
  | Console_warn string
  | Call callback

fun callbacks :: "effect list \<Rightarrow> callback list" where
  "callbacks [] = []"
| "callbacks (Call c # es) = c # callbacks es"
| "callbacks (e # es) = callbacks es"

subsection \<open>Routing one payload\<close>

fun route :: "streaming_response \<Rightarrow> callback" where
  "route (Thinking message session_id) = OnThinking message session_id"
| "route (Conversation_chunk message session_id stage) =
     OnConversationChunk message session_id stage"
| "route (Tool_start tool status session_id) = OnToolStart tool status session_id"
| "route (Response content session_id data ctx) = OnResponse content session_id data ctx"
| "route (Raw_products session_id products) = OnRawProducts session_id products"
| "route (Raw_cart session_id cart_items cart_summary) =
     OnRawCart session_id cart_items cart_summary"

text \<open>The \<^verbatim>\<open>try\<close> block around \<^verbatim>\<open>JSON.parse\<close> and the chain on \<^verbatim>\<open>data.type\<close>.\<close>

definition parse_data :: "json_parse \<Rightarrow> string \<Rightarrow> effect list" where
  "parse_data parse jsonStr =
     JSON_parse jsonStr #
     (case parse jsonStr of
        None \<Rightarrow> [Console_warn jsonStr]
      | Some Json_null \<Rightarrow> [Console_warn jsonStr]
      | Some Json_other \<Rightarrow> []
      | Some (Json_event data) \<Rightarrow> [Call (route data)])"

subsection \<open>The lines of one chunk\<close>

text \<open>
  The \<^verbatim>\<open>for\<close> loop over the complete lines. The flag of the result says that the
  marker was met and the function has returned.
\<close>

fun process_lines :: "json_parse \<Rightarrow> string list \<Rightarrow> effect list \<times> bool" where
  "process_lines parse [] = ([], False)"
| "process_lines parse (line # lines) =
     (let trimmedLine = trim line in
      if trimmedLine = [] \<or> startsWith trimmedLine '':'' then process_lines parse lines
      else if trimmedLine = ''[DONE]'' \<or> trimmedLine = ''data: [DONE]''
      then ([Call OnComplete], True)
      else if startsWith trimmedLine ''data:''
      then (let es = parse_data parse (trim (drop 5 trimmedLine));
                r = process_lines parse lines
            in (es @ fst r, snd r))
      else process_lines parse lines)"

subsection \<open>The read loop\<close>

datatype read_result = Read_value string | Read_done | Read_rejects js_error

text \<open>
  How the loop is left: still waiting for the next \<^verbatim>\<open>reader.read()\<close> (with the buffer
  it holds), left by \<^verbatim>\<open>break\<close>, \<^verbatim>\<open>return\<close> or a false loop condition, or left by an
  exception.
\<close>

datatype loop_end = Awaiting string | Left_loop | Threw js_error

record hook_refs =
  abortControllerRef :: "nat option"
  isStreamingRef :: bool

text \<open>
  The loop from the point where it waits in \<^verbatim>\<open>await reader.read()\<close>. The list holds
  the results the reader delivers; when it is used up the call stays suspended. After the
  lines of a chunk the condition \<^verbatim>\<open>while (isStreamingRef.current)\<close> is tested again.
\<close>

fun await_read ::
  "json_parse \<Rightarrow> hook_refs \<Rightarrow> string \<Rightarrow> read_result list \<Rightarrow> effect list \<times> loop_end \<times> hook_refs"
where
  "await_read parse refs buffer [] = ([], Awaiting buffer, refs)"
| "await_read parse refs buffer (r # rs) =
     (case r of
        Read_rejects e \<Rightarrow> ([], Threw e, refs)
      | Read_done \<Rightarrow> ([Call OnComplete], Left_loop, refs\<lparr>isStreamingRef := False\<rparr>)
      | Read_value text \<Rightarrow>
          (let lines = split_newline (buffer @ text);
               p = process_lines parse (butlast lines)
           in if snd p then (fst p, Left_loop, refs\<lparr>isStreamingRef := False\<rparr>)
              else if \<not> isStreamingRef refs then (fst p, Left_loop, refs)
              else (let l = await_read parse refs (last lines) rs
                    in (fst p @ fst l, snd l))))"

definition read_loop ::
  "json_parse \<Rightarrow> hook_refs \<Rightarrow> string \<Rightarrow> read_result list \<Rightarrow> effect list \<times> loop_end \<times> hook_refs"
where
  "read_loop parse refs buffer reads =
     (if \<not> isStreamingRef refs then ([], Left_loop, refs)
      else await_read parse refs buffer reads)"

subsection \<open>\<^verbatim>\<open>sendMessage\<close> of the hook\<close>

datatype fetch_result =
    Fetch_rejects js_error
  | Fetch_response bool nat "read_result list option"

text \<open>The \<^verbatim>\<open>catch\<close> clause.\<close>

fun catch_error :: "js_error \<Rightarrow> effect list" where
  "catch_error (Error_instance name message) =
     (if name = ''AbortError'' then [] else [Call (OnError (Error_instance name message))])"
| "catch_error Not_an_Error = []"

text \<open>The \<^verbatim>\<open>try\<close> block, from the fetch on.\<close>

definition try_stream ::
  "json_parse \<Rightarrow> hook_refs \<Rightarrow> fetch_result \<Rightarrow> effect list \<times> loop_end \<times> hook_refs"
where
  "try_stream parse refs f =
     (case f of
        Fetch_rejects e \<Rightarrow> ([], Threw e, refs)
      | Fetch_response ok status body \<Rightarrow>
          if \<not> ok
          then ([], Threw (Error_instance ''Error''
                             (''HTTP error! status: '' @ string_of_nat status)), refs)
          else (case body of
                  None \<Rightarrow> ([], Threw (Error_instance ''Error'' ''No reader available''), refs)
                | Some reads \<Rightarrow> read_loop parse refs [] reads))"

text \<open>
  The two refs of the hook are shared by all calls of its \<^verbatim>\<open>sendMessage\<close>, and a call
  is suspended at every \<^verbatim>\<open>await\<close>; so a call is modelled in the pieces that run without
  suspension, each on the refs as they are when it runs.

  First the head of a call, up to \<^verbatim>\<open>await fetch\<close>, with the controller it creates
  (\<open>ctl\<close>).
\<close>

definition startStream ::
  "nat \<Rightarrow> string \<Rightarrow> string option \<Rightarrow> hook_refs \<Rightarrow> effect list \<times> hook_refs"
where
  "startStream ctl message sessionId refs =
     ((case abortControllerRef refs of None \<Rightarrow> [] | Some c \<Rightarrow> [Abort c])
        @ [Fetch message sessionId ctl],
      \<lparr>abortControllerRef = Some ctl, isStreamingRef = True\<rparr>)"

text \<open>
  Then the call from the moment the fetch settles (\<open>f\<close> says how, and what the reader
  delivers). The result holds the effects, the refs afterwards and, when the call is
  suspended in \<^verbatim>\<open>reader.read()\<close>, the buffer. The \<^verbatim>\<open>finally\<close> clause runs once the call
  is over.
\<close>

definition fetchSettled ::
  "json_parse \<Rightarrow> fetch_result \<Rightarrow> hook_refs \<Rightarrow> effect list \<times> hook_refs \<times> string option"
where
  "fetchSettled parse f refs =
     (let t = try_stream parse refs f;
          finally = \<lparr>abortControllerRef = None, isStreamingRef = False\<rparr>
      in case fst (snd t) of
           Awaiting buffer \<Rightarrow> (fst t, snd (snd t), Some buffer)
         | Left_loop \<Rightarrow> (fst t, finally, None)
         | Threw e \<Rightarrow> (fst t @ catch_error e, finally, None))"

text \<open>A call of the hook's \<^verbatim>\<open>sendMessage\<close> that no other call of the hook interleaves with.\<close>

definition sendStreamMessage ::
  "json_parse \<Rightarrow> nat \<Rightarrow> string \<Rightarrow> string option \<Rightarrow> fetch_result \<Rightarrow> hook_refs
     \<Rightarrow> effect list \<times> hook_refs \<times> string option"
where
  "sendStreamMessage parse ctl message sessionId f refs =
     (let s = startStream ctl message sessionId refs;
          r = fetchSettled parse f (snd s)
      in (fst s @ fst r, snd r))"

text \<open>
  A call suspended in \<^verbatim>\<open>reader.read()\<close> goes on with the results that arrive; \<open>refs\<close>
  are the refs as they are at that moment.
\<close>

definition resumeStream ::
  "json_parse \<Rightarrow> hook_refs \<Rightarrow> string \<Rightarrow> read_result list
     \<Rightarrow> effect list \<times> hook_refs \<times> string option"
where
  "resumeStream parse refs buffer reads =
     (let l = await_read parse refs buffer reads;
          finally = \<lparr>abortControllerRef = None, isStreamingRef = False\<rparr>
      in case fst (snd l) of
           Awaiting buffer' \<Rightarrow> (fst l, snd (snd l), Some buffer')
         | Left_loop \<Rightarrow> (fst l, finally, None)
         | Threw e \<Rightarrow> (fst l @ catch_error e, finally, None))"

section \<open>The chat page: the transcript and its handlers\<close>

subsection \<open>Transcript entries\<close>

datatype message_type =
    User | Bot | Bot_thinking | Bot_tool_executing | Bot_conversation_chunk
  | Bot_product_list | Bot_cart_view | Bot_checkout_stage | Bot_error
  | Bot_order_confirmation | Bot_success | Bot_payment_initiated

record error_data =
  err_success :: bool
  err_error_type :: string
  err_recovery_action :: "string option"
  err_retry_possible :: "bool option"
  err_message :: string

record order_data =
  od_order_id :: string
  od_status :: string
  od_total_amount :: rat
  od_currency :: string
  od_customer_name :: string
  od_delivery_address :: string

text \<open>The fields of a \<^verbatim>\<open>ChatMessage\<close> beside its id, type and stream id, per variant.\<close>

datatype message_body =
    Content string
  | Tool string string
  | Chunk string "string option"
  | Products "js_value list"
  | Cart cart_context
  | Checkout js_value journey_context
  | Error_data error_data
  | Order_data order_data
  | Success string "string list option"
  | Payment string rat string

record chat_message =
  msg_id :: string
  msg_type :: message_type
  body :: message_body
  streamId :: "string option"

record chat_session =
  chat_id :: string
  title :: string
  messages :: "chat_message list"

text \<open>
  A function passed to \<^verbatim>\<open>setChats\<close> does not run in the call of the handler: React keeps
  it and runs it when it renders next, on the session list of that moment. What such a
  function reads from \<^verbatim>\<open>currentStreamIdRef\<close> and from the clock it reads when it runs. So
  an updater is a function of the value the ref has then, of the value \<^verbatim>\<open>Date.now()\<close>
  gives then, and of the session list it is given. A render may come at any time, also
  right after the call; where React runs an updater at the call already, because no other
  update waits, that is the run in which a render follows the call at once.
\<close>

type_synonym updater = "string option \<Rightarrow> nat \<Rightarrow> chat_session list \<Rightarrow> chat_session list"

text \<open>
  The state of the \<^verbatim>\<open>Chat\<close> component: its \<^verbatim>\<open>useState\<close> cells as of the last render,
  the updaters that have been passed to \<^verbatim>\<open>setChats\<close> since and have not run yet, oldest
  first, and the ref \<^verbatim>\<open>currentStreamIdRef\<close> (\<open>None\<close> is \<^verbatim>\<open>null\<close>), which is written and
  read at once. The setters that are called with a value (\<^verbatim>\<open>setIsLoading\<close>,
  \<^verbatim>\<open>setSessionId\<close>, \<^verbatim>\<open>setCartState\<close>, \<^verbatim>\<open>setActiveChatId\<close>) store a value that is fixed
  at the call, and the handlers read these cells through their closure only; their value
  is written into the cell at the call.
\<close>

record chat_state =
  chats :: "chat_session list"
  activeChatId :: string
  isLoading :: bool
  sessionId :: "string option"
  cart_itemCount :: rat
  cart_total :: rat
  pending :: "updater list"
  currentStreamIdRef :: "string option"

text \<open>\<^verbatim>\<open>setChats(f)\<close> with a function \<open>f\<close>.\<close>

definition setChats :: "updater \<Rightarrow> chat_state \<Rightarrow> chat_state" where
  "setChats u st = st\<lparr>pending := pending st @ [u]\<rparr>"

text \<open>
  A render runs the pending updaters in the order of their arrival, each on the result of
  the one before; \<open>now k\<close> is the value of \<^verbatim>\<open>Date.now()\<close> while the \<open>k\<close>-th of them runs.
  The ref is not written during a render.
\<close>

fun run_updaters ::
  "string option \<Rightarrow> (nat \<Rightarrow> nat) \<Rightarrow> updater list \<Rightarrow> chat_session list \<Rightarrow> chat_session list"
where
  "run_updaters cur now [] prev = prev"
| "run_updaters cur now (u # us) prev =
     run_updaters cur (\<lambda>k. now (Suc k)) us (u cur (now 0) prev)"

definition render :: "(nat \<Rightarrow> nat) \<Rightarrow> chat_state \<Rightarrow> chat_state" where
  "render now st =
     st\<lparr>chats := run_updaters (currentStreamIdRef st) now (pending st) (chats st),
        pending := []\<rparr>"

text \<open>
  What a handler closes over. The callbacks of one stream are those of the render in
  which the request was sent, so these values are the ones of that moment.
\<close>

record closure =
  cl_activeChatId :: string
  cl_chats :: "chat_session list"
  cl_sessionId :: "string option"

text \<open>
  The per-item field mappings inside \<^verbatim>\<open>transformRawProduct\<close>,
  \<^verbatim>\<open>transformRawCartSummary\<close> and the cart synthesis of \<^verbatim>\<open>handleRawCart\<close> are
  parameters: the transcript logic does not look into the items.
\<close>

record item_maps =
  transformRawProduct :: "js_value \<Rightarrow> js_value"
  transformCartItem :: "js_value \<Rightarrow> js_value"
  synthesizeItem :: "js_value \<Rightarrow> js_value"
  item_quantity :: "js_value \<Rightarrow> rat"
  item_subtotal :: "js_value \<Rightarrow> rat"

subsection \<open>Small JavaScript idioms\<close>

text \<open>\<^verbatim>\<open>m.streamId === currentStreamIdRef.current\<close>: \<^verbatim>\<open>undefined\<close> is not \<^verbatim>\<open>null\<close>.\<close>

definition isCurrentStream :: "string option \<Rightarrow> chat_message \<Rightarrow> bool" where
  "isCurrentStream cur m =
     (case streamId m of
        None \<Rightarrow> False
      | Some s \<Rightarrow> (case cur of None \<Rightarrow> False | Some c \<Rightarrow> s = c))"

text \<open>\<^verbatim>\<open>currentStreamIdRef.current || undefined\<close>.\<close>

definition or_undefined :: "string option \<Rightarrow> string option" where
  "or_undefined cur = (case cur of None \<Rightarrow> None | Some s \<Rightarrow> if s = [] then None else Some s)"

text \<open>\<^verbatim>\<open>x || 0\<close> on an optional number.\<close>

definition or_zero :: "rat option \<Rightarrow> rat" where
  "or_zero x = (case x of None \<Rightarrow> 0 | Some v \<Rightarrow> v)"

text \<open>\<^verbatim>\<open>if (session_id) setSessionId(session_id)\<close>.\<close>

definition updateSessionId :: "string option \<Rightarrow> chat_state \<Rightarrow> chat_state" where
  "updateSessionId session_id st =
     (case session_id of
        None \<Rightarrow> st
      | Some s \<Rightarrow> if s = [] then st else st\<lparr>sessionId := Some s\<rparr>)"

subsection \<open>The sweep\<close>

text \<open>The function that \<^verbatim>\<open>removeThinkingMessages\<close> passes to \<^verbatim>\<open>setChats\<close>.\<close>

definition removeThinkingMessages_updater :: "string \<Rightarrow> updater" where
  "removeThinkingMessages_updater a cur t prev =
     map (\<lambda>c. if chat_id c \<noteq> a then c
              else c\<lparr>messages :=
                     filter (\<lambda>m. \<not> ((msg_type m = Bot_thinking \<or> msg_type m = Bot_tool_executing)
                                     \<and> isCurrentStream cur m))
                       (messages c)\<rparr>)
       prev"

definition removeThinkingMessages :: "string \<Rightarrow> chat_state \<Rightarrow> chat_state" where
  "removeThinkingMessages a st = setChats (removeThinkingMessages_updater a) st"

subsection \<open>Handlers of the transient events\<close>

text \<open>
  In every handler \<open>now i\<close> is the value of the \<open>i\<close>-th \<^verbatim>\<open>Date.now()\<close> of the call. A
  handler makes its entry in the call, with the stream identity the ref holds then, and
  passes a function to \<^verbatim>\<open>setChats\<close> that filters by the identity the ref holds when the
  function runs.
\<close>

definition handleThinking_updater :: "string \<Rightarrow> chat_message \<Rightarrow> updater" where
  "handleThinking_updater a thinkingMsg cur t prev =
     map (\<lambda>c. if chat_id c \<noteq> a then c
              else c\<lparr>messages :=
                     filter (\<lambda>m. \<not> (msg_type m = Bot_thinking \<and> isCurrentStream cur m))
                       (messages c) @ [thinkingMsg]\<rparr>)
       prev"

definition handleThinking ::
  "(nat \<Rightarrow> nat) \<Rightarrow> string \<Rightarrow> string \<Rightarrow> string option \<Rightarrow> chat_state \<Rightarrow> chat_state"
where
  "handleThinking now a message session_id st =
     (let st1 = updateSessionId session_id st;
          thinkingMsg = \<lparr>msg_id = ''thinking'' @ string_of_nat (now 0),
                         msg_type = Bot_thinking,
                         body = Content message,
                         streamId = or_undefined (currentStreamIdRef st1)\<rparr>
      in setChats (handleThinking_updater a thinkingMsg) st1)"

definition handleToolStart_updater :: "string \<Rightarrow> chat_message \<Rightarrow> updater" where
  "handleToolStart_updater a toolMsg cur t prev =
     map (\<lambda>c. if chat_id c \<noteq> a then c
              else c\<lparr>messages :=
                     filter (\<lambda>m. \<not> (msg_type m = Bot_tool_executing \<and> isCurrentStream cur m))
                       (messages c) @ [toolMsg]\<rparr>)
       prev"

definition handleToolStart ::
  "(nat \<Rightarrow> nat) \<Rightarrow> string \<Rightarrow> string \<Rightarrow> string \<Rightarrow> string option \<Rightarrow> chat_state \<Rightarrow> chat_state"
where
  "handleToolStart now a tool status session_id st =
     (let st1 = updateSessionId session_id st;
          toolMsg = \<lparr>msg_id = ''tool'' @ string_of_nat (now 0),
                     msg_type = Bot_tool_executing,
                     body = Tool tool status,
                     streamId = or_undefined (currentStreamIdRef st1)\<rparr>
      in setChats (handleToolStart_updater a toolMsg) st1)"

definition handleConversationChunk_updater :: "string \<Rightarrow> chat_message \<Rightarrow> updater" where
  "handleConversationChunk_updater a chunkMsg cur t prev =
     map (\<lambda>c. if chat_id c \<noteq> a then c
              else c\<lparr>messages :=
                     filter (\<lambda>m. \<not> (msg_type m = Bot_conversation_chunk \<and> isCurrentStream cur m))
                       (messages c) @ [chunkMsg]\<rparr>)
       prev"

definition handleConversationChunk ::
  "(nat \<Rightarrow> nat) \<Rightarrow> string \<Rightarrow> string \<Rightarrow> string option \<Rightarrow> string option \<Rightarrow> chat_state
     \<Rightarrow> chat_state"
where
  "handleConversationChunk now a message session_id stage st =
     (let st1 = updateSessionId session_id st;
          chunkMsg = \<lparr>msg_id = ''chunk'' @ string_of_nat (now 0),
                      msg_type = Bot_conversation_chunk,
                      body = Chunk message stage,
                      streamId = or_undefined (currentStreamIdRef st1)\<rparr>
      in setChats (handleConversationChunk_updater a chunkMsg) st1)"

subsection \<open>The final response\<close>

record api_response =
  ar_response :: string
  ar_session_id :: string
  ar_data :: "response_data option"
  ar_context_type :: "context_type option"

definition createMessagesFromResponse :: "nat \<Rightarrow> api_response \<Rightarrow> chat_message list" where
  "createMessagesFromResponse timestamp responseData =
     (if ar_response responseData \<noteq> []
      then [\<lparr>msg_id = ''b'' @ string_of_nat timestamp, msg_type = Bot,
              body = Content (ar_response responseData), streamId = None\<rparr>]
      else []) @
     (case ar_data responseData of
        None \<Rightarrow> []
      | Some d \<Rightarrow>
          (case rd_products d of
             Some (p # ps) \<Rightarrow>
               if ar_context_type responseData = Some Search_results
               then [\<lparr>msg_id = ''p'' @ string_of_nat timestamp, msg_type = Bot_product_list,
                       body = Products (p # ps), streamId = None\<rparr>]
               else []
           | _ \<Rightarrow> []) @
          (case rd_cart_context d of
             Some cc \<Rightarrow>
               if ar_context_type responseData = Some Cart_view
               then [\<lparr>msg_id = ''c'' @ string_of_nat timestamp, msg_type = Bot_cart_view,
                       body = Cart cc, streamId = None\<rparr>]
               else []
           | None \<Rightarrow> []) @
          (case rd_journey_context d of
             Some jc \<Rightarrow>
               if ar_context_type responseData = Some Checkout_stage
               then [\<lparr>msg_id = ''ch'' @ string_of_nat timestamp, msg_type = Bot_checkout_stage,
                       body = Checkout
                                (case rd_quote_data d of
                                   None \<Rightarrow> JS_object [(''providers'', JS_array [])]
                                 | Some q \<Rightarrow> q)
                                jc,
                       streamId = None\<rparr>]
               else []
           | None \<Rightarrow> []) @
          (case rd_confirm_context d of
             Some cf \<Rightarrow>
               if ar_context_type responseData = Some Order_confirmation
               then [\<lparr>msg_id = ''oc'' @ string_of_nat timestamp,
                       msg_type = Bot_order_confirmation,
                       body = Order_data
                                \<lparr>od_order_id = cf_order_id cf,
                                 od_status = cf_order_status cf,
                                 od_total_amount = cf_total_amount cf,
                                 od_currency = ''INR'',
                                 od_customer_name = ''Customer'',
                                 od_delivery_address = ''Address on file''\<rparr>,
                       streamId = None\<rparr>]
               else []
           | None \<Rightarrow> []) @
          (if ar_context_type responseData = Some Error_message \<or> rd_success d = Some False
           then [\<lparr>msg_id = ''e'' @ string_of_nat timestamp, msg_type = Bot_error,
                   body = Error_data
                            \<lparr>err_success = (rd_success d = Some True),
                             err_error_type = ''api_error'',
                             err_recovery_action = None,
                             err_retry_possible = Some True,
                             err_message =
                               (if ar_response responseData \<noteq> [] then ar_response responseData
                                else ''An error occurred'')\<rparr>,
                   streamId = None\<rparr>]
           else []) @
          (case rd_journey_context d of
             Some jc \<Rightarrow>
               (case jc_next_operations jc of
                  Some ops \<Rightarrow>
                    if ar_context_type responseData = Some Success_message
                    then [\<lparr>msg_id = ''s'' @ string_of_nat timestamp, msg_type = Bot_success,
                            body = Success
                                     (if ar_response responseData \<noteq> []
                                      then ar_response responseData
                                      else ''Operation completed successfully'')
                                     (Some ops),
                            streamId = None\<rparr>]
                    else []
                | None \<Rightarrow> [])
           | None \<Rightarrow> []))"

text \<open>
  The function that the payment branch passes to \<^verbatim>\<open>setChats\<close>; the identifier of the
  text entry is made inside it, from the clock at the time it runs.
\<close>

definition handleResponse_payment_updater :: "string \<Rightarrow> string \<Rightarrow> chat_message \<Rightarrow> updater" where
  "handleResponse_payment_updater a content paymentMessage cur t prev =
     map (\<lambda>c. if chat_id c \<noteq> a then c
              else c\<lparr>messages :=
                     filter (\<lambda>m. \<not> ((msg_type m = Bot_thinking \<or> msg_type m = Bot_tool_executing)
                                     \<and> isCurrentStream cur m))
                       (messages c)
                     @ [\<lparr>msg_id = ''response_'' @ string_of_nat t,
                         msg_type = Bot,
                         body = Content content,
                         streamId = None\<rparr>,
                        paymentMessage]\<rparr>)
       prev"

text \<open>The function that the general branch passes to \<^verbatim>\<open>setChats\<close>.\<close>

definition handleResponse_updater :: "string \<Rightarrow> chat_message list \<Rightarrow> updater" where
  "handleResponse_updater a newMessages cur t prev =
     map (\<lambda>c. if chat_id c \<noteq> a then c
              else c\<lparr>messages :=
                     filter (\<lambda>m. \<not> ((msg_type m = Bot_thinking
                                      \<or> msg_type m = Bot_tool_executing
                                      \<or> msg_type m = Bot_conversation_chunk)
                                     \<and> isCurrentStream cur m))
                       (messages c)
                     @ newMessages\<rparr>)
       prev"

definition handleResponse ::
  "(nat \<Rightarrow> nat) \<Rightarrow> closure \<Rightarrow> string \<Rightarrow> string option \<Rightarrow> response_data option
     \<Rightarrow> context_type option \<Rightarrow> chat_state \<Rightarrow> chat_state"
where
  "handleResponse now cl content session_id data ctx st =
     (let a = cl_activeChatId cl;
          st1 = updateSessionId session_id st
      in if includes_str content ''initialized a new shopping session''
            \<or> includes_str content ''Session Ready''
         then removeThinkingMessages a st1
         else if includes_str content ''Your order has been initialized''
         then
           (let amount = (case match_amount content of
                            None \<Rightarrow> 0
                          | Some g \<Rightarrow> parseFloat g);
                orderId = ''order_'' @ string_of_nat (now 0);
                paymentMessage = \<lparr>msg_id = ''payment_'' @ string_of_nat (now 1),
                                  msg_type = Bot_payment_initiated,
                                  body = Payment orderId amount ''INR'',
                                  streamId = None\<rparr>
            in setChats (handleResponse_payment_updater a content paymentMessage) st1)
         else
           (let responseData =
                  \<lparr>ar_response = content,
                   ar_session_id =
                     (case or_undefined session_id of
                        Some s \<Rightarrow> s
                      | None \<Rightarrow> (case or_undefined (cl_sessionId cl) of
                                   Some s \<Rightarrow> s
                                 | None \<Rightarrow> [])),
                   ar_data = data,
                   ar_context_type = ctx\<rparr>;
                st2 = (case data of
                         None \<Rightarrow> st1
                       | Some d \<Rightarrow>
                           (case rd_cart_context d of
                              None \<Rightarrow> st1
                            | Some cc \<Rightarrow>
                                st1\<lparr>cart_itemCount := or_zero (cc_total_items cc),
                                    cart_total := or_zero (cc_total_value cc)\<rparr>));
                newMessages = createMessagesFromResponse (now 0) responseData
            in setChats (handleResponse_updater a newMessages) st2))"

subsection \<open>Product lists and cart views\<close>

definition handleRawProducts_updater :: "string \<Rightarrow> chat_message \<Rightarrow> updater" where
  "handleRawProducts_updater a productMessage cur t prev =
     map (\<lambda>c. if chat_id c \<noteq> a then c
              else c\<lparr>messages :=
                     filter
                       (\<lambda>m. \<not> ((msg_type m = Bot_thinking
                                 \<or> msg_type m = Bot_tool_executing
                                 \<or> msg_type m = Bot_conversation_chunk)
                                \<and> isCurrentStream cur m)
                            \<and> \<not> (msg_type m = Bot_product_list \<and> isCurrentStream cur m))
                       (messages c)
                     @ [productMessage]\<rparr>)
       prev"

definition handleRawProducts ::
  "item_maps \<Rightarrow> (nat \<Rightarrow> nat) \<Rightarrow> string \<Rightarrow> string option \<Rightarrow> js_value list option
     \<Rightarrow> chat_state \<Rightarrow> chat_state"
where
  "handleRawProducts maps now a session_id products st =
     (let st1 = updateSessionId session_id st
      in case products of
           None \<Rightarrow> removeThinkingMessages a st1
         | Some [] \<Rightarrow> removeThinkingMessages a st1
         | Some (p # ps) \<Rightarrow>
             (let transformedProducts = map (transformRawProduct maps) (p # ps);
                  productMessage = \<lparr>msg_id = ''raw_products'' @ string_of_nat (now 0),
                                    msg_type = Bot_product_list,
                                    body = Products transformedProducts,
                                    streamId = or_undefined (currentStreamIdRef st1)\<rparr>
              in setChats (handleRawProducts_updater a productMessage) st1))"

text \<open>\<^verbatim>\<open>Array.isArray(s?.items) && s.items.length > 0\<close>.\<close>

definition has_items :: "raw_cart_summary option \<Rightarrow> bool" where
  "has_items s =
     (case s of
        None \<Rightarrow> False
      | Some r \<Rightarrow> (case rcs_items r of None \<Rightarrow> False | Some xs \<Rightarrow> xs \<noteq> []))"

text \<open>The summary built from \<^verbatim>\<open>cart_items\<close> when the summary carries no items.\<close>

definition normalizeCartSummary ::
  "item_maps \<Rightarrow> js_value list \<Rightarrow> raw_cart_summary option \<Rightarrow> raw_cart_summary option"
where
  "normalizeCartSummary maps cart_items cart_summary =
     (if \<not> has_items cart_summary \<and> cart_items \<noteq> []
      then
        (let synthesizedItems = map (synthesizeItem maps) cart_items
         in Some \<lparr>rcs_items = Some synthesizedItems,
                  rcs_total_items =
                    Some (case Option.bind cart_summary rcs_total_items of
                            Some n \<Rightarrow> n
                          | None \<Rightarrow> sum_list (map (item_quantity maps) synthesizedItems)),
                  rcs_total_value =
                    Some (case Option.bind cart_summary rcs_total_value of
                            Some v \<Rightarrow> v
                          | None \<Rightarrow> sum_list (map (item_subtotal maps) synthesizedItems)),
                  rcs_is_empty = Some False\<rparr>)
      else cart_summary)"

definition transformRawCartSummary :: "item_maps \<Rightarrow> raw_cart_summary \<Rightarrow> cart_context" where
  "transformRawCartSummary maps rawCartSummary =
     (let cartItems = map (transformCartItem maps)
                        (case rcs_items rawCartSummary of None \<Rightarrow> [] | Some xs \<Rightarrow> xs)
      in \<lparr>cc_items = Some cartItems,
          cc_total_items = Some (or_zero (rcs_total_items rawCartSummary)),
          cc_total_value = Some (or_zero (rcs_total_value rawCartSummary)),
          cc_is_empty = Some (case rcs_is_empty rawCartSummary of
                                None \<Rightarrow> cartItems = []
                              | Some b \<Rightarrow> b),
          cc_ready_for_checkout =
            Some (rcs_is_empty rawCartSummary \<noteq> Some True \<and> cartItems \<noteq> [])\<rparr>)"

definition handleRawCart_updater :: "string \<Rightarrow> chat_message \<Rightarrow> updater" where
  "handleRawCart_updater a cartMessage cur t prev =
     map (\<lambda>c. if chat_id c \<noteq> a then c
              else c\<lparr>messages :=
                     filter
                       (\<lambda>m. \<not> ((msg_type m = Bot_thinking
                                 \<or> msg_type m = Bot_tool_executing
                                 \<or> msg_type m = Bot_conversation_chunk)
                                \<and> isCurrentStream cur m)
                            \<and> \<not> (msg_type m = Bot_cart_view \<and> isCurrentStream cur m))
                       (messages c)
                     @ [cartMessage]\<rparr>)
       prev"

definition handleRawCart ::
  "item_maps \<Rightarrow> (nat \<Rightarrow> nat) \<Rightarrow> string \<Rightarrow> string option \<Rightarrow> js_value list
     \<Rightarrow> raw_cart_summary option \<Rightarrow> chat_state \<Rightarrow> chat_state"
where
  "handleRawCart maps now a session_id cart_items cart_summary st =
     (let st1 = updateSessionId session_id st;
          normalizedCartSummary = normalizeCartSummary maps cart_items cart_summary
      in case normalizedCartSummary of
           None \<Rightarrow> removeThinkingMessages a st1
         | Some summary \<Rightarrow>
             if \<not> has_items normalizedCartSummary then removeThinkingMessages a st1
             else
               (let cartContext = transformRawCartSummary maps summary;
                    st2 = st1\<lparr>cart_itemCount := or_zero (cc_total_items cartContext),
                              cart_total := or_zero (cc_total_value cartContext)\<rparr>;
                    cartMessage = \<lparr>msg_id = ''raw_cart'' @ string_of_nat (now 0),
                                   msg_type = Bot_cart_view,
                                   body = Cart cartContext,
                                   streamId = or_undefined (currentStreamIdRef st2)\<rparr>
                in setChats (handleRawCart_updater a cartMessage) st2))"

subsection \<open>The end of a stream\<close>

text \<open>
  The function that appends one entry to the transcript of a session; \<^verbatim>\<open>handleStreamError\<close>
  and \<^verbatim>\<open>sendMessage\<close> pass it to \<^verbatim>\<open>setChats\<close>.
\<close>

definition append_updater :: "string \<Rightarrow> chat_message \<Rightarrow> updater" where
  "append_updater a newMsg cur t prev =
     map (\<lambda>c. if chat_id c = a then c\<lparr>messages := messages c @ [newMsg]\<rparr> else c) prev"

text \<open>
  \<^verbatim>\<open>handleStreamError\<close> looks for prior entries in the session list it closed over, which
  is the list of the render its request was sent from.
\<close>

definition handleStreamError :: "(nat \<Rightarrow> nat) \<Rightarrow> closure \<Rightarrow> js_error \<Rightarrow> chat_state \<Rightarrow> chat_state"
where
  "handleStreamError now cl error st =
     (let a = cl_activeChatId cl;
          st1 = removeThinkingMessages a (st\<lparr>isLoading := False\<rparr>);
          shouldAppendMessage =
            (case List.find (\<lambda>c. chat_id c = a) (cl_chats cl) of
               None \<Rightarrow> False
             | Some currentChat \<Rightarrow> messages currentChat \<noteq> [])
      in if shouldAppendMessage
         then
           (let errorMsg =
                  \<lparr>msg_id = ''e'' @ string_of_nat (now 0),
                   msg_type = Bot_error,
                   body = Error_data
                            \<lparr>err_success = False,
                             err_error_type = ''network_error'',
                             err_recovery_action = Some ''retry_operation'',
                             err_retry_possible = Some True,
                             err_message =
                               ''Sorry, I encountered an error. Please try again.''\<rparr>,
                   streamId = None\<rparr>
            in setChats (append_updater a errorMsg) st1)
         else st1)"

definition handleStreamComplete :: "closure \<Rightarrow> chat_state \<Rightarrow> chat_state" where
  "handleStreamComplete cl st = removeThinkingMessages (cl_activeChatId cl) (st\<lparr>isLoading := False\<rparr>)"

subsection \<open>From the callbacks of the hook to the handlers\<close>

fun on_callback :: "item_maps \<Rightarrow> closure \<Rightarrow> (nat \<Rightarrow> nat) \<Rightarrow> callback \<Rightarrow> chat_state \<Rightarrow> chat_state"
where
  "on_callback maps cl now (OnThinking message session_id) st =
     handleThinking now (cl_activeChatId cl) message session_id st"
| "on_callback maps cl now (OnToolStart tool status session_id) st =
     handleToolStart now (cl_activeChatId cl) tool status session_id st"
| "on_callback maps cl now (OnConversationChunk message session_id stage) st =
     handleConversationChunk now (cl_activeChatId cl) message session_id stage st"
| "on_callback maps cl now (OnResponse content session_id data ctx) st =
     handleResponse now cl content session_id data ctx st"
| "on_callback maps cl now (OnRawProducts session_id products) st =
     handleRawProducts maps now (cl_activeChatId cl) session_id products st"
| "on_callback maps cl now (OnRawCart session_id cart_items cart_summary) st =
     handleRawCart maps now (cl_activeChatId cl) session_id cart_items cart_summary st"
| "on_callback maps cl now (OnError error) st = handleStreamError now cl error st"
| "on_callback maps cl now OnComplete st = handleStreamComplete cl st"

text \<open>
  The callbacks of a run, applied in the order of their arrival; \<open>clock k\<close> is the clock
  of the \<open>k\<close>-th of them.
\<close>

fun run_callbacks ::
  "item_maps \<Rightarrow> closure \<Rightarrow> (nat \<Rightarrow> nat \<Rightarrow> nat) \<Rightarrow> callback list \<Rightarrow> chat_state \<Rightarrow> chat_state"
where
  "run_callbacks maps cl clock [] st = st"
| "run_callbacks maps cl clock (c # cs) st =
     run_callbacks maps cl (\<lambda>k. clock (Suc k)) cs (on_callback maps cl (clock 0) c st)"

subsection \<open>What happens on the page while streams are open\<close>

text \<open>
  The hook invokes a callback of a stream, which runs the handler with the closure of the
  request that the stream belongs to, or React renders. Each step carries the values that
  \<^verbatim>\<open>Date.now()\<close> gives while it runs.
\<close>

datatype page_step = Invoke closure "nat \<Rightarrow> nat" callback | Render "nat \<Rightarrow> nat"

fun do_step :: "item_maps \<Rightarrow> page_step \<Rightarrow> chat_state \<Rightarrow> chat_state" where
  "do_step maps (Invoke cl now c) st = on_callback maps cl now c st"
| "do_step maps (Render now) st = render now st"

definition run_steps :: "item_maps \<Rightarrow> page_step list \<Rightarrow> chat_state \<Rightarrow> chat_state" where
  "run_steps maps steps st = fold (do_step maps) steps st"

subsection \<open>\<^verbatim>\<open>sendMessage\<close> and \<^verbatim>\<open>switchChat\<close> of the chat page\<close>

definition closure_of :: "chat_state \<Rightarrow> closure" where
  "closure_of st =
     \<lparr>cl_activeChatId = activeChatId st, cl_chats = chats st, cl_sessionId = sessionId st\<rparr>"

text \<open>
  \<^verbatim>\<open>sendMessage\<close> of the page does not wait for the hook: it ends when the call of the hook
  reaches \<^verbatim>\<open>await fetch\<close>. It writes the new stream identity into the ref (\<open>rnd\<close> is the
  text that \<^verbatim>\<open>Math.random().toString(36).substr(2, 9)\<close> gives), passes the function that
  appends the user entry to \<^verbatim>\<open>setChats\<close>, sets the loading flag and calls the hook. The
  session identifier and the active chat are those of its closure \<open>cl\<close>; the handlers of
  the stream it opens have the same closure. The result is the page state and the refs
  of the hook afterwards, and the effects of the hook.
\<close>

definition sendMessage ::
  "(nat \<Rightarrow> nat) \<Rightarrow> string \<Rightarrow> nat \<Rightarrow> closure \<Rightarrow> string \<Rightarrow> bool \<Rightarrow> chat_state \<times> hook_refs
     \<Rightarrow> (chat_state \<times> hook_refs) \<times> effect list"
where
  "sendMessage now rnd ctl cl msg appendMessage s =
     (let newStreamId = ''stream_'' @ string_of_nat (now 0) @ ''_'' @ rnd;
          st1 = (fst s)\<lparr>currentStreamIdRef := Some newStreamId\<rparr>;
          st2 = (if appendMessage
                 then setChats (append_updater (cl_activeChatId cl)
                                  \<lparr>msg_id = ''m'' @ string_of_nat (now 1),
                                   msg_type = User,
                                   body = Content msg,
                                   streamId = None\<rparr>) st1
                 else st1);
          st3 = st2\<lparr>isLoading := True\<rparr>;
          h = startStream ctl msg (cl_sessionId cl) (snd s)
      in ((st3, snd h), fst h))"

definition switchChat :: "string \<Rightarrow> chat_state \<Rightarrow> chat_state" where
  "switchChat chatId st = st\<lparr>activeChatId := chatId\<rparr>"

text \<open>
  The request from the moment its fetch settles: the piece of the hook's call that runs
  then, and the handlers of the callbacks it invokes, with the closure \<open>cl\<close> of the send.
  \<open>clock k\<close> is the clock of the \<open>k\<close>-th callback. No render falls into such a piece.
\<close>

definition settleRequest ::
  "json_parse \<Rightarrow> item_maps \<Rightarrow> (nat \<Rightarrow> nat \<Rightarrow> nat) \<Rightarrow> closure \<Rightarrow> fetch_result
     \<Rightarrow> chat_state \<times> hook_refs
     \<Rightarrow> (chat_state \<times> hook_refs) \<times> effect list \<times> string option"
where
  "settleRequest parse maps clock cl f s =
     (let h = fetchSettled parse f (snd s);
          st2 = run_callbacks maps cl clock (callbacks (fst h)) (fst s)
      in ((st2, fst (snd h)), fst h, snd (snd h)))"

text \<open>A request that is suspended in a read goes on with further results of the reader.\<close>

definition resumeRequest ::
  "json_parse \<Rightarrow> item_maps \<Rightarrow> (nat \<Rightarrow> nat \<Rightarrow> nat) \<Rightarrow> closure \<Rightarrow> string \<Rightarrow> read_result list
     \<Rightarrow> chat_state \<times> hook_refs
     \<Rightarrow> (chat_state \<times> hook_refs) \<times> effect list \<times> string option"
where
  "resumeRequest parse maps clock cl buffer reads s =
     (let h = resumeStream parse (snd s) buffer reads;
          st2 = run_callbacks maps cl clock (callbacks (fst h)) (fst s)
      in ((st2, fst (snd h)), fst h, snd (snd h)))"

text \<open>
  One request that nothing interleaves with, up to the point the reader has reached: the
  send with the closure \<open>cl\<close> of the render it is sent from, a render, the piece after the
  fetch has settled, and a render. \<open>clock 0\<close> is the clock of the send, \<open>clock 1\<close> and
  \<open>clock 2\<close> those of the two renders, \<open>clock (k + 3)\<close> the one of the \<open>k\<close>-th callback.
\<close>

definition request_run ::
  "json_parse \<Rightarrow> item_maps \<Rightarrow> (nat \<Rightarrow> nat \<Rightarrow> nat) \<Rightarrow> string \<Rightarrow> nat \<Rightarrow> closure \<Rightarrow> string \<Rightarrow> bool
     \<Rightarrow> fetch_result \<Rightarrow> chat_state \<times> hook_refs
     \<Rightarrow> (chat_state \<times> hook_refs) \<times> effect list \<times> string option"
where
  "request_run parse maps clock rnd ctl cl msg appendMessage f s =
     (let b = sendMessage (clock 0) rnd ctl cl msg appendMessage s;
          r = settleRequest parse maps (\<lambda>k. clock (k + 3)) cl f
                (render (clock 1) (fst (fst b)), snd (fst b))
      in ((render (clock 2) (fst (fst r)), snd (fst r)), snd b @ fst (snd r), snd (snd r)))"

section \<open>Notions used in the statements\<close>

text \<open>The line is the end marker, as the hook tests it on the trimmed line.\<close>

definition is_sentinel :: "string \<Rightarrow> bool" where
  "is_sentinel line = (trim line = ''[DONE]'' \<or> trim line = ''data: [DONE]'')"

text \<open>The complete lines of a text: all pieces of the split but the last.\<close>

definition complete_lines :: "string \<Rightarrow> string list" where
  "complete_lines text = butlast (split_newline text)"

text \<open>
  The entries that the request identity \<open>cur\<close> does not own are all kept, unchanged and
  in their order, from \<open>ms\<close> to \<open>ms'\<close>.
\<close>

definition keeps_history :: "string option \<Rightarrow> chat_message list \<Rightarrow> chat_message list \<Rightarrow> bool"
where
  "keeps_history cur ms ms' =
     prefix (filter (\<lambda>m. \<not> isCurrentStream cur m) ms)
            (filter (\<lambda>m. \<not> isCurrentStream cur m) ms')"

text \<open>
  From the sessions \<open>cs\<close> to \<open>cs'\<close> every session keeps its place and identifier, every
  session other than \<open>a\<close> is the same, and every transcript keeps its history.
\<close>

definition step_rel ::
  "string \<Rightarrow> string option \<Rightarrow> chat_session list \<Rightarrow> chat_session list \<Rightarrow> bool"
where
  "step_rel a cur cs cs' =
     list_all2 (\<lambda>c c'. chat_id c' = chat_id c \<and> (chat_id c \<noteq> a \<longrightarrow> c' = c)
                  \<and> keeps_history cur (messages c) (messages c')) cs cs'"

text \<open>The transient kinds that the sweep at the end of a stream looks for.\<close>

definition swept :: "string option \<Rightarrow> chat_message \<Rightarrow> bool" where
  "swept cur m =
     ((msg_type m = Bot_thinking \<or> msg_type m = Bot_tool_executing) \<and> isCurrentStream cur m)"

text \<open>An entry of one of the three transient kinds that the identity \<open>cur\<close> owns.\<close>

definition transient :: "string option \<Rightarrow> chat_message \<Rightarrow> bool" where
  "transient cur m =
     ((msg_type m = Bot_thinking \<or> msg_type m = Bot_tool_executing
         \<or> msg_type m = Bot_conversation_chunk) \<and> isCurrentStream cur m)"

text \<open>The updaters that a step from \<open>st\<close> to \<open>st'\<close> has passed to \<^verbatim>\<open>setChats\<close>.\<close>

definition queued :: "chat_state \<Rightarrow> chat_state \<Rightarrow> updater list" where
  "queued st st' = drop (length (pending st)) (pending st')"

text \<open>
  An updater that, whenever and on whatever it runs, rewrites the transcript of the session
  \<open>a\<close> only and keeps the history of every transcript.
\<close>

definition session_updater :: "string \<Rightarrow> updater \<Rightarrow> bool" where
  "session_updater a u = (\<forall>cur t prev. step_rel a cur prev (u cur t prev))"

text \<open>
  An updater that, whenever and on whatever it runs, keeps every session at its place with
  its identifier, and in every transcript the entries that the request identity of that
  moment does not own.
\<close>

definition history_updater :: "updater \<Rightarrow> bool" where
  "history_updater u =
     (\<forall>cur t prev.
        list_all2 (\<lambda>c c'. chat_id c' = chat_id c \<and> keeps_history cur (messages c) (messages c'))
          prev (u cur t prev))"

subsection \<open>Values for the examples\<close>

text \<open>The state of a page that has just been mounted, and the refs of its hook.\<close>

definition initial_state :: chat_state where
  "initial_state =
     \<lparr>chats = [\<lparr>chat_id = ''c1'', title = ''New Chat'', messages = []\<rparr>],
      activeChatId = ''c1'',
      isLoading = False,
      sessionId = None,
      cart_itemCount = 0,
      cart_total = 0,
      pending = [],
      currentStreamIdRef = None\<rparr>"

definition initial_refs :: hook_refs where
  "initial_refs = \<lparr>abortControllerRef = None, isStreamingRef = False\<rparr>"

text \<open>What \<^verbatim>\<open>JSON.parse\<close> gives on the payloads of the examples.\<close>

definition sample_parse :: json_parse where
  \<open>sample_parse s =
     (if s = ''{"type":"thinking","message":"Searching"}''
      then Some (Json_event (Thinking ''Searching'' None))
      else if s = ''{"type":"thinking","message":"Found 2 items"}''
      then Some (Json_event (Thinking ''Found 2 items'' None))
      else if s = ''{"type":"thinking","message":"Found 2 items","session_id":"s1"}''
      then Some (Json_event (Thinking ''Found 2 items'' (Some ''s1'')))
      else if s = ''{"type":"conversation_chunk","message":"Looking"}''
      then Some (Json_event (Conversation_chunk ''Looking'' None None))
      else if s = ''{"type":"raw_products","products":[{"id":"p1","name":"Rice"}]}''
      then Some (Json_event (Raw_products None
                   (Some [JS_object [(''id'', JS_string ''p1''), (''name'', JS_string ''Rice'')]])))
      else if s = ''{"type":"raw_products","products":[{"id":"p2","name":"Dal"}]}''
      then Some (Json_event (Raw_products None
                   (Some [JS_object [(''id'', JS_string ''p2''), (''name'', JS_string ''Dal'')]])))
      else if s = ''{"type":"done"}'' then Some Json_other
      else if s = ''null'' then Some Json_null
      else None)\<close>

definition sample_maps :: item_maps where
  "sample_maps =
     \<lparr>transformRawProduct = (\<lambda>x. x),
      transformCartItem = (\<lambda>x. x),
      synthesizeItem = (\<lambda>x. x),
      item_quantity = (\<lambda>x. 1),
      item_subtotal = (\<lambda>x. 0)\<rparr>"

definition sample_clock :: "nat \<Rightarrow> nat \<Rightarrow> nat" where
  "sample_clock k i = 1000 + k"

text \<open>The lines of an example, each ended by a line feed.\<close>

definition wire :: "string list \<Rightarrow> string" where
  "wire ls = concat (map (\<lambda>l. l @ [CHR 0x0A]) ls)"

text \<open>
  A page with two sessions while the request \<open>stream_1_a\<close> is open on the first one; both
  transcripts hold a thinking entry with that identity.
\<close>

definition two_chats :: chat_state where
  "two_chats =
     \<lparr>chats =
        [\<lparr>chat_id = ''c1'', title = ''New Chat'',
          messages = [\<lparr>msg_id = ''m1'', msg_type = User, body = Content ''rice'',
                       streamId = None\<rparr>,
                      \<lparr>msg_id = ''thinking2'', msg_type = Bot_thinking,
                       body = Content ''Searching'', streamId = Some ''stream_1_a''\<rparr>]\<rparr>,
         \<lparr>chat_id = ''c2'', title = ''New Chat'',
          messages = [\<lparr>msg_id = ''thinking0'', msg_type = Bot_thinking,
                       body = Content ''Searching'', streamId = Some ''stream_1_a''\<rparr>]\<rparr>],
      activeChatId = ''c1'',
      isLoading = True,
      sessionId = None,
      cart_itemCount = 0,
      cart_total = 0,
      pending = [],
      currentStreamIdRef = Some ''stream_1_a''\<rparr>"

text \<open>
  A transcript in which the request \<open>stream_1_a\<close> has left a product list, while the
  request \<open>stream_2_b\<close> is open and has shown a product list and a cart view already.
\<close>

definition second_request_open :: chat_state where
  "second_request_open =
     \<lparr>chats =
        [\<lparr>chat_id = ''c1'', title = ''New Chat'',
          messages = [\<lparr>msg_id = ''m1'', msg_type = User, body = Content ''rice'',
                       streamId = None\<rparr>,
                      \<lparr>msg_id = ''raw_products2'', msg_type = Bot_product_list,
                       body = Products [JS_string ''Rice''], streamId = Some ''stream_1_a''\<rparr>,
                      \<lparr>msg_id = ''m3'', msg_type = User, body = Content ''dal'',
                       streamId = None\<rparr>,
                      \<lparr>msg_id = ''raw_products4'', msg_type = Bot_product_list,
                       body = Products [JS_string ''Dal''], streamId = Some ''stream_2_b''\<rparr>,
                      \<lparr>msg_id = ''raw_cart5'', msg_type = Bot_cart_view,
                       body = Cart \<lparr>cc_items = Some [], cc_total_items = Some 0,
                                    cc_total_value = Some 0, cc_is_empty = Some True,
                                    cc_ready_for_checkout = Some False\<rparr>,
                       streamId = Some ''stream_2_b''\<rparr>]\<rparr>],
      activeChatId = ''c1'',
      isLoading = True,
      sessionId = None,
      cart_itemCount = 0,
      cart_total = 0,
      pending = [],
      currentStreamIdRef = Some ''stream_2_b''\<rparr>"

text \<open>A final response of the payment kind, as the heuristic of \<^verbatim>\<open>handleResponse\<close> sees it.\<close>

definition payment_text :: string where
  "payment_text = ''Your order has been initialized. Total: '' @ rupee @ ''499.50 incl. tax''"
text \<open>The page of a pair rendered.\<close>

definition rendered :: "(nat \<Rightarrow> nat) \<Rightarrow> chat_state \<times> hook_refs \<Rightarrow> chat_state \<times> hook_refs" where
  "rendered now s = (render now (fst s), snd s)"

text \<open>
  A request on the fresh page that has received one thinking frame and is still open
  (controller 11, identity \<open>stream_1000_ab\<close>).
\<close>

definition request1 :: "(chat_state \<times> hook_refs) \<times> effect list \<times> string option" where
  \<open>request1 =
     request_run sample_parse sample_maps sample_clock ''ab'' 11 (closure_of initial_state)
       ''rice'' True
       (Fetch_response True 200
          (Some [Read_value (wire [''data: {"type":"thinking","message":"Searching"}''])]))
       (initial_state, initial_refs)\<close>

text \<open>
  A second request is sent while the first is open (controller 12); the first call goes on
  with the rejection that the abort causes, and the page renders.
\<close>

definition request2_sent :: "(chat_state \<times> hook_refs) \<times> effect list" where
  "request2_sent =
     sendMessage (\<lambda>i. 2000) ''cd'' 12 (closure_of (fst (fst request1))) ''dal'' True
       (fst request1)"

definition request1_aborted :: "(chat_state \<times> hook_refs) \<times> effect list \<times> string option" where
  "request1_aborted =
     resumeRequest sample_parse sample_maps (\<lambda>k i. 2100 + k) (closure_of initial_state) []
       [Read_rejects (Error_instance ''AbortError'' ''The user aborted a request.'')]
       (fst request2_sent)"

definition after_abort :: "chat_state \<times> hook_refs" where
  "after_abort = rendered (\<lambda>k. 2500) (fst request1_aborted)"

text \<open>
  A third request is sent before the fetch of the second has settled (controller 13). Then
  the fetch of the second settles and its stream delivers a thinking frame; the page
  renders.
\<close>

definition request3_sent :: "(chat_state \<times> hook_refs) \<times> effect list" where
  "request3_sent =
     sendMessage (\<lambda>i. 3000) ''ef'' 13 (closure_of (fst after_abort)) ''moong'' True after_abort"

definition request2_open :: "(chat_state \<times> hook_refs) \<times> effect list \<times> string option" where
  \<open>request2_open =
     settleRequest sample_parse sample_maps (\<lambda>k i. 3100 + k) (closure_of (fst (fst request1)))
       (Fetch_response True 200
          (Some [Read_value (wire [''data: {"type":"thinking","message":"Found 2 items"}''])]))
       (fst request3_sent)\<close>

definition after_frame :: "chat_state \<times> hook_refs" where
  "after_frame = rendered (\<lambda>k. 3500) (fst request2_open)"

text \<open>
  A fourth request is sent while the stream of the second is open (controller 14); the
  call of the third ends with the rejection of its fetch; the stream of the second
  delivers the end marker; the page renders.
\<close>

definition request4_sent :: "(chat_state \<times> hook_refs) \<times> effect list" where
  "request4_sent =
     sendMessage (\<lambda>i. 4000) ''gh'' 14 (closure_of (fst after_frame)) ''urad'' True after_frame"

definition request3_aborted :: "(chat_state \<times> hook_refs) \<times> effect list \<times> string option" where
  "request3_aborted =
     settleRequest sample_parse sample_maps (\<lambda>k i. 4100 + k) (closure_of (fst after_abort))
       (Fetch_rejects (Error_instance ''AbortError'' ''The user aborted a request.''))
       (fst request4_sent)"

definition request2_complete :: "(chat_state \<times> hook_refs) \<times> effect list \<times> string option" where
  "request2_complete =
     resumeRequest sample_parse sample_maps (\<lambda>k i. 4200 + k) (closure_of (fst (fst request1))) []
       [Read_value (wire [''data: [DONE]''])]
       (fst request3_aborted)"

definition after_complete :: "chat_state \<times> hook_refs" where
  "after_complete = rendered (\<lambda>k. 4500) (fst request2_complete)"

text \<open>
  The first request again, open after its first thinking frame: a second thinking frame
  arrives, which also carries a session identifier, and a second request is sent before
  React has rendered.
\<close>

definition send_before_render :: chat_state where
  \<open>send_before_render =
     render (\<lambda>k. 2500)
       (fst (fst (sendMessage (\<lambda>i. 2000) ''cd'' 12 (closure_of (fst (fst request1))) ''dal'' True
          (fst (resumeRequest sample_parse sample_maps (\<lambda>k i. 1500 + k)
                  (closure_of initial_state) []
                  [Read_value
                     (wire [''data: {"type":"thinking","message":"Found 2 items","session_id":"s1"}''])]
                  (fst request1))))))\<close>

text \<open>
  The first request again, open after its first thinking frame: its stream delivers the
  end marker, and a second request is sent before React has rendered.
\<close>

definition send_after_complete :: chat_state where
  "send_after_complete =
     render (\<lambda>k. 2500)
       (fst (fst (sendMessage (\<lambda>i. 2000) ''cd'' 12 (closure_of (fst (fst request1))) ''dal'' True
          (fst (resumeRequest sample_parse sample_maps (\<lambda>k i. 1500 + k)
                  (closure_of initial_state) []
                  [Read_value (wire [''data: [DONE]''])]
                  (fst request1))))))"

text \<open>
  A request on the fresh page whose stream carries a conversation chunk and the end
  marker.
\<close>

definition chunk_request :: "(chat_state \<times> hook_refs) \<times> effect list \<times> string option" where
  \<open>chunk_request =
     request_run sample_parse sample_maps sample_clock ''ab'' 11 (closure_of initial_state)
       ''rice'' True
       (Fetch_response True 200
          (Some [Read_value
                   (wire [''data: {"type":"conversation_chunk","message":"Looking"}'',
                          ''data: [DONE]''])]))
       (initial_state, initial_refs)\<close>

text \<open>
  The page with two sessions after the user has switched to the second one, while the
  stream of the request sent from the first is open: a thinking frame of that stream
  arrives, and the page renders.
\<close>

definition after_switch :: chat_state where
  "after_switch =
     render (\<lambda>k. 2500)
       (on_callback sample_maps (closure_of two_chats) (sample_clock 0)
          (OnThinking ''Found 2 items'' None) (switchChat ''c2'' two_chats))"

section \<open>A call that nothing interleaves with\<close>

lemma callbacks_append [simp]: "callbacks (xs @ ys) = callbacks xs @ callbacks ys"
  by (induction xs rule: callbacks.induct) simp_all

lemma callbacks_aborts [simp]:
  "callbacks (case r of None \<Rightarrow> [] | Some c \<Rightarrow> [Abort c]) = []"
  by (cases r) simp_all

lemma sendStreamMessage_unfold:
  "sendStreamMessage parse ctl message sid f refs =
     (let aborts = (case abortControllerRef refs of None \<Rightarrow> [] | Some c \<Rightarrow> [Abort c]);
          refs1 = \<lparr>abortControllerRef = Some ctl, isStreamingRef = True\<rparr>;
          t = try_stream parse refs1 f;
          pre = aborts @ [Fetch message sid ctl] @ fst t;
          finally = \<lparr>abortControllerRef = None, isStreamingRef = False\<rparr>
      in case fst (snd t) of
           Awaiting buffer \<Rightarrow> (pre, snd (snd t), Some buffer)
         | Left_loop \<Rightarrow> (pre, finally, None)
         | Threw e \<Rightarrow> (pre @ catch_error e, finally, None))"
  by (simp add: sendStreamMessage_def startStream_def fetchSettled_def Let_def
        split: loop_end.splits)

section \<open>Updaters, handlers and renders\<close>

lemma updateSessionId_simps [simp]:
  "chats (updateSessionId s st) = chats st"
  "currentStreamIdRef (updateSessionId s st) = currentStreamIdRef st"
  "activeChatId (updateSessionId s st) = activeChatId st"
  "pending (updateSessionId s st) = pending st"
  by (auto simp: updateSessionId_def split: option.splits)

lemma setChats_simps [simp]:
  "chats (setChats u st) = chats st"
  "currentStreamIdRef (setChats u st) = currentStreamIdRef st"
  "activeChatId (setChats u st) = activeChatId st"
  "pending (setChats u st) = pending st @ [u]"
  by (simp_all add: setChats_def)

lemma removeThinkingMessages_simps [simp]:
  "chats (removeThinkingMessages a st) = chats st"
  "currentStreamIdRef (removeThinkingMessages a st) = currentStreamIdRef st"
  "activeChatId (removeThinkingMessages a st) = activeChatId st"
  "pending (removeThinkingMessages a st) = pending st @ [removeThinkingMessages_updater a]"
  by (simp_all add: removeThinkingMessages_def)

lemma render_simps [simp]:
  "currentStreamIdRef (render now st) = currentStreamIdRef st"
  "activeChatId (render now st) = activeChatId st"
  "pending (render now st) = []"
  "chats (render now st) = run_updaters (currentStreamIdRef st) now (pending st) (chats st)"
  by (simp_all add: render_def)

lemma run_updaters_append:
  "run_updaters cur now (xs @ ys) prev =
     run_updaters cur (\<lambda>k. now (length xs + k)) ys (run_updaters cur now xs prev)"
  by (induction xs arbitrary: now prev) simp_all

lemma queued_append: "pending st' = pending st @ us \<Longrightarrow> queued st st' = us"
  by (simp add: queued_def)

subsection \<open>Every updater of the page rewrites one session and keeps the history\<close>

lemma keeps_history_refl [simp]: "keeps_history cur ms ms"
  by (simp add: keeps_history_def)

lemma keeps_history_trans:
  "keeps_history cur a b \<Longrightarrow> keeps_history cur b c \<Longrightarrow> keeps_history cur a c"
  unfolding keeps_history_def by (rule prefix_order.trans)

lemma keeps_history_filter_append:
  "(\<And>m. m \<in> set ms \<Longrightarrow> \<not> isCurrentStream cur m \<Longrightarrow> P m)
    \<Longrightarrow> keeps_history cur ms (filter P ms @ new)"
proof -
  assume h: "\<And>m. m \<in> set ms \<Longrightarrow> \<not> isCurrentStream cur m \<Longrightarrow> P m"
  have "filter (\<lambda>m. \<not> isCurrentStream cur m) (filter P ms) = filter (\<lambda>m. \<not> isCurrentStream cur m) ms"
    using h by (induction ms) auto
  then show ?thesis by (simp add: keeps_history_def)
qed

lemma keeps_history_filter:
  "(\<And>m. m \<in> set ms \<Longrightarrow> \<not> isCurrentStream cur m \<Longrightarrow> P m)
    \<Longrightarrow> keeps_history cur ms (filter P ms)"
  using keeps_history_filter_append [of ms cur P "[]"] by simp

lemma step_rel_map:
  "(\<And>c. c \<in> set cs \<Longrightarrow> chat_id c = a \<Longrightarrow> keeps_history cur (messages c) (F c))
   \<Longrightarrow> step_rel a cur cs (map (\<lambda>c. if chat_id c \<noteq> a then c else c\<lparr>messages := F c\<rparr>) cs)"
  by (auto simp: step_rel_def list_all2_map2 intro!: list_all2_all_nthI dest: nth_mem)

lemma step_rel_refl [simp]: "step_rel a cur cs cs"
  by (simp add: step_rel_def list_all2_same)

lemma step_rel_trans:
  assumes "step_rel a cur xs ys" "step_rel a cur ys zs"
  shows "step_rel a cur xs zs"
  unfolding step_rel_def
proof (rule list_all2_trans [OF _ assms [unfolded step_rel_def]])
  fix x y z :: chat_session
  assume "chat_id y = chat_id x \<and> (chat_id x \<noteq> a \<longrightarrow> y = x)
            \<and> keeps_history cur (messages x) (messages y)"
    and "chat_id z = chat_id y \<and> (chat_id y \<noteq> a \<longrightarrow> z = y)
            \<and> keeps_history cur (messages y) (messages z)"
  then show "chat_id z = chat_id x \<and> (chat_id x \<noteq> a \<longrightarrow> z = x)
            \<and> keeps_history cur (messages x) (messages z)"
    by (auto intro: keeps_history_trans)
qed

lemma step_rel_append:
  "step_rel a cur cs (map (\<lambda>c. if chat_id c = a then c\<lparr>messages := messages c @ new\<rparr> else c) cs)"
  by (auto simp: step_rel_def list_all2_map2 keeps_history_def intro!: list_all2_all_nthI)


lemma session_updaterI:
  "(\<And>cur t prev. step_rel a cur prev (u cur t prev)) \<Longrightarrow> session_updater a u"
  by (simp add: session_updater_def)

lemma removeThinkingMessages_updater_session:
  "session_updater a (removeThinkingMessages_updater a)"
  by (rule session_updaterI)
     (auto simp: removeThinkingMessages_updater_def intro!: step_rel_map keeps_history_filter)

lemma handleThinking_updater_session: "session_updater a (handleThinking_updater a m)"
  by (rule session_updaterI)
     (auto simp: handleThinking_updater_def intro!: step_rel_map keeps_history_filter_append)

lemma handleToolStart_updater_session: "session_updater a (handleToolStart_updater a m)"
  by (rule session_updaterI)
     (auto simp: handleToolStart_updater_def intro!: step_rel_map keeps_history_filter_append)

lemma handleConversationChunk_updater_session:
  "session_updater a (handleConversationChunk_updater a m)"
  by (rule session_updaterI)
     (auto simp: handleConversationChunk_updater_def
           intro!: step_rel_map keeps_history_filter_append)

lemma handleResponse_payment_updater_session:
  "session_updater a (handleResponse_payment_updater a content m)"
  by (rule session_updaterI)
     (auto simp: handleResponse_payment_updater_def
           intro!: step_rel_map keeps_history_filter_append)

lemma handleResponse_updater_session: "session_updater a (handleResponse_updater a ms)"
  by (rule session_updaterI)
     (auto simp: handleResponse_updater_def intro!: step_rel_map keeps_history_filter_append)

lemma handleRawProducts_updater_session: "session_updater a (handleRawProducts_updater a m)"
  by (rule session_updaterI)
     (auto simp: handleRawProducts_updater_def intro!: step_rel_map keeps_history_filter_append)

lemma handleRawCart_updater_session: "session_updater a (handleRawCart_updater a m)"
  by (rule session_updaterI)
     (auto simp: handleRawCart_updater_def intro!: step_rel_map keeps_history_filter_append)

lemma append_updater_session: "session_updater a (append_updater a m)"
  unfolding append_updater_def by (rule session_updaterI) (rule step_rel_append)

lemmas updater_session =
  removeThinkingMessages_updater_session handleThinking_updater_session
  handleToolStart_updater_session handleConversationChunk_updater_session
  handleResponse_payment_updater_session handleResponse_updater_session
  handleRawProducts_updater_session handleRawCart_updater_session append_updater_session

lemma run_updaters_step:
  "\<forall>u \<in> set us. session_updater a u \<Longrightarrow> step_rel a cur prev (run_updaters cur now us prev)"
proof (induction us arbitrary: now prev)
  case Nil
  show ?case by simp
next
  case (Cons u us)
  have 1: "step_rel a cur prev (u cur (now 0) prev)"
    using Cons.prems by (simp add: session_updater_def)
  have 2: "step_rel a cur (u cur (now 0) prev)
             (run_updaters cur (\<lambda>k. now (Suc k)) us (u cur (now 0) prev))"
    using Cons.prems by (intro Cons.IH) simp
  from step_rel_trans [OF 1 2] show ?case by simp
qed

subsection \<open>What a handler leaves for the next render\<close>

text \<open>
  A handler changes neither the session list nor the ref; it passes updaters of its own
  session to \<^verbatim>\<open>setChats\<close>.
\<close>

lemma on_callback_chats [simp]: "chats (on_callback maps cl now cb st) = chats st"
  by (cases cb)
     (auto simp: handleThinking_def handleToolStart_def handleConversationChunk_def
        handleResponse_def handleRawProducts_def handleRawCart_def handleStreamError_def
        handleStreamComplete_def Let_def split: option.splits list.splits)

lemma on_callback_cur [simp]:
  "currentStreamIdRef (on_callback maps cl now cb st) = currentStreamIdRef st"
  by (cases cb)
     (auto simp: handleThinking_def handleToolStart_def handleConversationChunk_def
        handleResponse_def handleRawProducts_def handleRawCart_def handleStreamError_def
        handleStreamComplete_def Let_def split: option.splits list.splits)

lemma on_callback_pending:
  "\<exists>us. pending (on_callback maps cl now cb st) = pending st @ us
        \<and> (\<forall>u \<in> set us. session_updater (cl_activeChatId cl) u)"
  by (cases cb)
     (auto simp: handleThinking_def handleToolStart_def handleConversationChunk_def
        handleResponse_def handleRawProducts_def handleRawCart_def handleStreamError_def
        handleStreamComplete_def Let_def updater_session split: option.splits list.splits)

lemma on_callback_queued:
  "pending (on_callback maps cl now cb st) = pending st @ queued st (on_callback maps cl now cb st)"
  "u \<in> set (queued st (on_callback maps cl now cb st)) \<Longrightarrow> session_updater (cl_activeChatId cl) u"
proof -
  obtain us where us: "pending (on_callback maps cl now cb st) = pending st @ us"
    and good: "\<forall>u \<in> set us. session_updater (cl_activeChatId cl) u"
    using on_callback_pending by blast
  have q: "queued st (on_callback maps cl now cb st) = us"
    using us by (rule queued_append)
  show "pending (on_callback maps cl now cb st) = pending st @ queued st (on_callback maps cl now cb st)"
    using us q by simp
  show "session_updater (cl_activeChatId cl) u"
    if "u \<in> set (queued st (on_callback maps cl now cb st))"
    using that good q by simp
qed

lemma render_after:
  assumes "pending st' = pending st @ us"
    and "currentStreamIdRef st' = currentStreamIdRef st"
    and "chats st' = chats st"
  shows "chats (render now st') =
           run_updaters (currentStreamIdRef st) (\<lambda>k. now (length (pending st) + k)) us
             (chats (render now st))"
  using assms by (simp add: run_updaters_append)

lemma on_callback_render_step:
  "step_rel (cl_activeChatId cl) (currentStreamIdRef st) (chats (render rnow st))
     (chats (render rnow (on_callback maps cl now cb st)))"
proof -
  let ?st' = "on_callback maps cl now cb st"
  have "chats (render rnow ?st') =
          run_updaters (currentStreamIdRef st) (\<lambda>k. rnow (length (pending st) + k))
            (queued st ?st') (chats (render rnow st))"
    by (rule render_after) (simp_all add: on_callback_queued(1) [symmetric])
  moreover have "\<forall>u \<in> set (queued st ?st'). session_updater (cl_activeChatId cl) u"
    using on_callback_queued(2) by blast
  ultimately show ?thesis
    using run_updaters_step by simp
qed
section \<open>Claims about the transcript\<close>

text \<open>
  C10. A handler of a stream event touches one session only, the one whose identifier it
  closed over (the chat that was active in the render its request was sent from): the
  call itself leaves the session list as it is, and the updaters it passes to
  \<^verbatim>\<open>setChats\<close>, whenever React runs them and on whatever list, leave every session with
  another identifier the same, message list included, at its place. So does the render
  that follows the call.
\<close>

theorem handlers_change_only_their_session:
  "chats (on_callback maps cl now cb st) = chats st
   \<and> pending (on_callback maps cl now cb st)
       = pending st @ queued st (on_callback maps cl now cb st)
   \<and> (\<forall>u \<in> set (queued st (on_callback maps cl now cb st)). \<forall>cur t prev.
         list_all2 (\<lambda>c c'. chat_id c \<noteq> cl_activeChatId cl \<longrightarrow> c' = c) prev (u cur t prev))
   \<and> list_all2 (\<lambda>c c'. chat_id c \<noteq> cl_activeChatId cl \<longrightarrow> c' = c)
        (chats (render rnow st)) (chats (render rnow (on_callback maps cl now cb st)))"
proof (intro conjI ballI allI)
  show "chats (on_callback maps cl now cb st) = chats st"
    by simp
  show "pending (on_callback maps cl now cb st)
          = pending st @ queued st (on_callback maps cl now cb st)"
    by (rule on_callback_queued(1))
  show "list_all2 (\<lambda>c c'. chat_id c \<noteq> cl_activeChatId cl \<longrightarrow> c' = c) prev (u cur t prev)"
    if "u \<in> set (queued st (on_callback maps cl now cb st))" for u cur t prev
  proof -
    have "step_rel (cl_activeChatId cl) cur prev (u cur t prev)"
      using on_callback_queued(2) [OF that] by (simp add: session_updater_def)
    then show ?thesis
      unfolding step_rel_def by (rule list_all2_mono) simp
  qed
  show "list_all2 (\<lambda>c c'. chat_id c \<noteq> cl_activeChatId cl \<longrightarrow> c' = c)
          (chats (render rnow st)) (chats (render rnow (on_callback maps cl now cb st)))"
    using on_callback_render_step [where cl = cl and st = st and rnow = rnow and maps = maps
                                     and now = now and cb = cb]
    unfolding step_rel_def by (rule list_all2_mono) simp
qed

theorem handlers_change_only_their_session_witness:
  "chat_id (chats two_chats ! 1) \<noteq> cl_activeChatId (closure_of two_chats)
   \<and> chats (render (\<lambda>k. 2500)
              (on_callback sample_maps (closure_of two_chats) (sample_clock 0)
                 (OnThinking ''Found 2 items'' None) two_chats)) ! 1
     = chats two_chats ! 1"
proof -
  have "list_all2 (\<lambda>c c'. chat_id c \<noteq> cl_activeChatId (closure_of two_chats) \<longrightarrow> c' = c)
          (chats (render (\<lambda>k. 2500) two_chats))
          (chats (render (\<lambda>k. 2500)
                    (on_callback sample_maps (closure_of two_chats) (sample_clock 0)
                       (OnThinking ''Found 2 items'' None) two_chats)))"
    using handlers_change_only_their_session
            [where maps = sample_maps and cl = "closure_of two_chats" and now = "sample_clock 0"
               and cb = "OnThinking ''Found 2 items'' None" and st = two_chats
               and rnow = "\<lambda>k. 2500"]
    by (elim conjE)
  from list_all2_nthD [OF this, of 1] show ?thesis
    by (simp add: two_chats_def closure_of_def)
qed

text \<open>
  The session a handler closed over need not be the active one: after the user has
  switched to the second session, a thinking frame of the stream that was opened from the
  first session rewrites the transcript of the first session.
\<close>

theorem inactive_session_rewritten_counterexample:
  "activeChatId after_switch = ''c2''
   \<and> chat_id (chats after_switch ! 0) = ''c1''
   \<and> messages (chats (switchChat ''c2'' two_chats) ! 0)
     = [\<lparr>msg_id = ''m1'', msg_type = User, body = Content ''rice'', streamId = None\<rparr>,
        \<lparr>msg_id = ''thinking2'', msg_type = Bot_thinking, body = Content ''Searching'',
         streamId = Some ''stream_1_a''\<rparr>]
   \<and> messages (chats after_switch ! 0)
     = [\<lparr>msg_id = ''m1'', msg_type = User, body = Content ''rice'', streamId = None\<rparr>,
        \<lparr>msg_id = ''thinking1000'', msg_type = Bot_thinking, body = Content ''Found 2 items'',
         streamId = Some ''stream_1_a''\<rparr>]"
  by (simp add: after_switch_def switchChat_def two_chats_def closure_of_def handleThinking_def
        handleThinking_updater_def updateSessionId_def isCurrentStream_def or_undefined_def
        sample_clock_def string_of_nat.simps Let_def)

lemma handleRawProducts_as_callback:
  "handleRawProducts maps now a sid products st
     = on_callback maps \<lparr>cl_activeChatId = a, cl_chats = [], cl_sessionId = None\<rparr> now
         (OnRawProducts sid products) st"
  by simp

lemma handleRawCart_as_callback:
  "handleRawCart maps now a sid items summary st
     = on_callback maps \<lparr>cl_activeChatId = a, cl_chats = [], cl_sessionId = None\<rparr> now
         (OnRawCart sid items summary) st"
  by simp

lemma keeps_history_member:
  assumes "keeps_history cur ms ms'" and "m \<in> set ms" and "\<not> isCurrentStream cur m"
  shows "m \<in> set ms'"
proof -
  have "m \<in> set (filter (\<lambda>m. \<not> isCurrentStream cur m) ms)"
    using assms(2,3) by simp
  then have "m \<in> set (filter (\<lambda>m. \<not> isCurrentStream cur m) ms')"
    using assms(1) set_mono_prefix unfolding keeps_history_def by blast
  then show ?thesis by simp
qed

text \<open>
  C5. The latest-wins removal of the product-list handler and of the cart-view handler
  takes away entries of the open request identity only: an entry that this identity does
  not own (an entry of an earlier request, for one) is in the transcript after the handler
  and the render that follows it, unchanged, and all such entries keep their order. More
  generally, whenever React runs an updater that one of the two handlers has passed to
  \<^verbatim>\<open>setChats\<close>, on whatever session list, every entry that the identity of that moment
  does not own is kept, and all such entries keep their order.
\<close>

theorem latest_wins_keeps_history:
  assumes "i < length (chats (render rnow st))"
    and "m \<in> set (messages (chats (render rnow st) ! i))"
    and "\<not> isCurrentStream (currentStreamIdRef st) m"
  shows "m \<in> set (messages (chats (render rnow (handleRawProducts maps now a sid products st)) ! i))
       \<and> m \<in> set (messages (chats (render rnow (handleRawCart maps now a sid items summary st)) ! i))
       \<and> keeps_history (currentStreamIdRef st) (messages (chats (render rnow st) ! i))
           (messages (chats (render rnow (handleRawProducts maps now a sid products st)) ! i))
       \<and> keeps_history (currentStreamIdRef st) (messages (chats (render rnow st) ! i))
           (messages (chats (render rnow (handleRawCart maps now a sid items summary st)) ! i))
       \<and> (\<forall>u \<in> set (queued st (handleRawProducts maps now a sid products st))
                 \<union> set (queued st (handleRawCart maps now a sid items summary st)).
            \<forall>cur t prev. \<forall>j < length prev. \<forall>x \<in> set (messages (prev ! j)).
              \<not> isCurrentStream cur x \<longrightarrow>
                x \<in> set (messages (u cur t prev ! j))
                \<and> keeps_history cur (messages (prev ! j)) (messages (u cur t prev ! j)))"
proof -
  let ?cl = "\<lparr>cl_activeChatId = a, cl_chats = [], cl_sessionId = None\<rparr>"
  have p: "keeps_history (currentStreamIdRef st) (messages (chats (render rnow st) ! i))
             (messages (chats (render rnow (handleRawProducts maps now a sid products st)) ! i))"
    using list_all2_nthD [OF on_callback_render_step [unfolded step_rel_def] assms(1),
            where cl1 = ?cl and maps1 = maps and now1 = now and cb1 = "OnRawProducts sid products"]
    by simp
  have c: "keeps_history (currentStreamIdRef st) (messages (chats (render rnow st) ! i))
             (messages (chats (render rnow (handleRawCart maps now a sid items summary st)) ! i))"
    using list_all2_nthD [OF on_callback_render_step [unfolded step_rel_def] assms(1),
            where cl1 = ?cl and maps1 = maps and now1 = now and cb1 = "OnRawCart sid items summary"]
    by simp
  have u: "x \<in> set (messages (u cur t prev ! j))
           \<and> keeps_history cur (messages (prev ! j)) (messages (u cur t prev ! j))"
    if "u \<in> set (queued st (handleRawProducts maps now a sid products st))
              \<union> set (queued st (handleRawCart maps now a sid items summary st))"
      and j: "j < length prev" and x: "x \<in> set (messages (prev ! j))"
      and nx: "\<not> isCurrentStream cur x"
    for u cur t prev j x
  proof -
    have "session_updater a u"
      using that(1)
        on_callback_queued(2) [where u = u and st = st and maps = maps and cl = ?cl and now = now
                                 and cb = "OnRawProducts sid products"]
        on_callback_queued(2) [where u = u and st = st and maps = maps and cl = ?cl and now = now
                                 and cb = "OnRawCart sid items summary"]
      by auto
    then have "step_rel a cur prev (u cur t prev)"
      by (simp add: session_updater_def)
    from list_all2_nthD [OF this [unfolded step_rel_def] j]
    have k: "keeps_history cur (messages (prev ! j)) (messages (u cur t prev ! j))"
      by simp
    from keeps_history_member [OF k x nx] k show ?thesis
      by simp
  qed
  from keeps_history_member [OF p assms(2,3)] keeps_history_member [OF c assms(2,3)] p c u
  show ?thesis
    by blast
qed

theorem latest_wins_keeps_history_witness:
  "\<lparr>msg_id = ''raw_products2'', msg_type = Bot_product_list,
     body = Products [JS_string ''Rice''], streamId = Some ''stream_1_a''\<rparr>
     \<in> set (messages (chats (render (\<lambda>k. 2500)
               (handleRawProducts sample_maps (sample_clock 3) ''c1'' None
                  (Some [JS_string ''Moong'']) second_request_open)) ! 0))
   \<and> map msg_id (messages (chats (render (\<lambda>k. 2500)
               (handleRawProducts sample_maps (sample_clock 3) ''c1'' None
                  (Some [JS_string ''Moong'']) second_request_open)) ! 0))
     = [''m1'', ''raw_products2'', ''m3'', ''raw_cart5'', ''raw_products1003'']"
proof -
  let ?m = "\<lparr>msg_id = ''raw_products2'', msg_type = Bot_product_list,
             body = Products [JS_string ''Rice''], streamId = Some ''stream_1_a''\<rparr>"
  have 1: "0 < length (chats (render (\<lambda>k. 2500) second_request_open))"
    by (simp add: second_request_open_def)
  have 2: "?m \<in> set (messages (chats (render (\<lambda>k. 2500) second_request_open) ! 0))"
    by (simp add: second_request_open_def)
  have 3: "\<not> isCurrentStream (currentStreamIdRef second_request_open) ?m"
    by (simp add: second_request_open_def isCurrentStream_def)
  have 4: "map msg_id (messages (chats (render (\<lambda>k. 2500)
               (handleRawProducts sample_maps (sample_clock 3) ''c1'' None
                  (Some [JS_string ''Moong'']) second_request_open)) ! 0))
     = [''m1'', ''raw_products2'', ''m3'', ''raw_cart5'', ''raw_products1003'']"
    by (simp add: second_request_open_def handleRawProducts_def handleRawProducts_updater_def
          updateSessionId_def isCurrentStream_def or_undefined_def sample_clock_def
          sample_maps_def Let_def string_of_nat.simps)
  from latest_wins_keeps_history [OF 1 2 3, where maps = sample_maps and now = "sample_clock 3"
         and a = "''c1''" and sid = None and products = "Some [JS_string ''Moong'']"
         and items = "[]" and summary = None] 4
  show ?thesis by simp
qed

section \<open>The lines of a chunk\<close>

lemma route_not_terminal [simp]:
  "route d \<noteq> OnComplete" "route d \<noteq> OnError e"
  "OnComplete \<noteq> route d" "OnError e \<noteq> route d"
  by (cases d; simp)+

lemma callbacks_parse_data:
  "callbacks (parse_data parse s) = [] \<or> (\<exists>d. callbacks (parse_data parse s) = [route d])"
  by (auto simp: parse_data_def split: option.splits json_data.splits)

lemma parse_data_no_terminal [simp]:
  "OnComplete \<notin> set (callbacks (parse_data parse s))"
  "OnError e \<notin> set (callbacks (parse_data parse s))"
  using callbacks_parse_data [of parse s] by auto

lemma data_prefix_facts:
  assumes "startsWith t ''data:''"
  shows "t \<noteq> []" "\<not> startsWith t '':''" "t \<noteq> ''[DONE]''"
proof -
  from assms obtain r where "t = ''data:'' @ r"
    unfolding startsWith_def by (metis append_take_drop_id length_Cons list.size(3))
  then show "t \<noteq> []" "\<not> startsWith t '':''" "t \<noteq> ''[DONE]''"
    by (simp_all add: startsWith_def)
qed

lemma sentinel_facts:
  assumes "is_sentinel line"
  shows "trim line \<noteq> []" "\<not> startsWith (trim line) '':''"
  using assms by (auto simp: is_sentinel_def startsWith_def)

lemma process_lines_sentinel:
  "is_sentinel line \<Longrightarrow> process_lines parse (line # rest) = ([Call OnComplete], True)"
  using sentinel_facts [of line] by (simp add: is_sentinel_def)

lemma process_lines_not_sentinel:
  "\<not> is_sentinel line \<Longrightarrow>
     process_lines parse (line # rest) =
       ((if startsWith (trim line) ''data:'' then parse_data parse (trim (drop 5 (trim line)))
         else []) @ fst (process_lines parse rest),
        snd (process_lines parse rest))"
  using data_prefix_facts [of "trim line"]
  by (auto simp: is_sentinel_def Let_def)

declare process_lines.simps(2) [simp del]

lemma process_lines_append:
  "process_lines parse (xs @ ys) =
     (if snd (process_lines parse xs) then process_lines parse xs
      else (fst (process_lines parse xs) @ fst (process_lines parse ys),
            snd (process_lines parse ys)))"
proof (induction xs)
  case Nil
  show ?case by simp
next
  case (Cons x xs)
  show ?case
  proof (cases "is_sentinel x")
    case True
    then show ?thesis by (simp add: process_lines_sentinel)
  next
    case False
    then show ?thesis
      using Cons.IH by (simp add: process_lines_not_sentinel)
  qed
qed

lemma process_lines_returns_iff:
  "snd (process_lines parse ls) = (\<exists>l \<in> set ls. is_sentinel l)"
proof (induction ls)
  case Nil
  show ?case by simp
next
  case (Cons x xs)
  then show ?case
    by (cases "is_sentinel x") (simp_all add: process_lines_sentinel process_lines_not_sentinel)
qed

lemma process_lines_no_error:
  "OnError e \<notin> set (callbacks (fst (process_lines parse ls)))"
proof (induction ls)
  case Nil
  show ?case by simp
next
  case (Cons x xs)
  then show ?case
    by (cases "is_sentinel x") (simp_all add: process_lines_sentinel process_lines_not_sentinel)
qed

lemma process_lines_complete_count:
  "count_list (callbacks (fst (process_lines parse ls))) OnComplete
     = (if snd (process_lines parse ls) then 1 else 0)"
proof (induction ls)
  case Nil
  show ?case by simp
next
  case (Cons x xs)
  then show ?case
    by (cases "is_sentinel x")
       (simp_all add: process_lines_sentinel process_lines_not_sentinel count_list_0_iff)
qed

lemma process_lines_complete_last:
  "snd (process_lines parse ls) \<Longrightarrow>
     fst (process_lines parse ls) \<noteq> [] \<and> last (fst (process_lines parse ls)) = Call OnComplete"
proof (induction ls)
  case Nil
  then show ?case by simp
next
  case (Cons x xs)
  show ?case
  proof (cases "is_sentinel x")
    case True
    then show ?thesis by (simp add: process_lines_sentinel)
  next
    case False
    with Cons.prems have s: "snd (process_lines parse xs)"
      by (simp add: process_lines_not_sentinel)
    with False Cons.IH [OF s] show ?thesis
      by (simp add: process_lines_not_sentinel)
  qed
qed

text \<open>
  C6. A data line whose payload \<^verbatim>\<open>JSON.parse\<close> rejects is skipped: its only effects
  are the call of the parser and the warning, no callback is invoked (so neither
  \<^verbatim>\<open>onError\<close> nor any handler that changes the transcript), and the loop goes on with
  the next line. Hence the callbacks of a chunk are those of the chunk without the
  malformed line, wherever the line stands.
\<close>

theorem malformed_frame_is_skipped:
  assumes "startsWith (trim line) ''data:''"
    and "trim line \<noteq> ''data: [DONE]''"
    and "parse (trim (drop 5 (trim line))) = None"
  shows "process_lines parse (line # rest) =
           (JSON_parse (trim (drop 5 (trim line))) # Console_warn (trim (drop 5 (trim line)))
              # fst (process_lines parse rest),
            snd (process_lines parse rest))
       \<and> callbacks (fst (process_lines parse (before @ line # rest)))
           = callbacks (fst (process_lines parse (before @ rest)))
       \<and> snd (process_lines parse (before @ line # rest))
           = snd (process_lines parse (before @ rest))"
proof -
  have ns: "\<not> is_sentinel line"
    using assms(2) data_prefix_facts(3) [OF assms(1)] by (simp add: is_sentinel_def)
  have one: "process_lines parse (line # rest) =
           (JSON_parse (trim (drop 5 (trim line))) # Console_warn (trim (drop 5 (trim line)))
              # fst (process_lines parse rest),
            snd (process_lines parse rest))"
    using assms(1,3) by (simp add: process_lines_not_sentinel [OF ns] parse_data_def)
  then show ?thesis
    by (simp add: process_lines_append [of parse before])
qed

theorem malformed_frame_is_skipped_witness:
  "startsWith (trim ''data: not-json'') ''data:''
   \<and> trim ''data: not-json'' \<noteq> ''data: [DONE]''
   \<and> sample_parse (trim (drop 5 (trim ''data: not-json''))) = None
   \<and> callbacks (fst (process_lines sample_parse
         [''data: {\"type\":\"thinking\",\"message\":\"Searching\"}'',
          ''data: not-json'',
          ''data: {\"type\":\"thinking\",\"message\":\"Found 2 items\"}'']))
       = [OnThinking ''Searching'' None, OnThinking ''Found 2 items'' None]"
proof -
  have t: "trim ''data: not-json'' = ''data: not-json''"
    by (simp add: trim_def js_whitespace_def startsWith_def)
  have t': "trim '' not-json'' = ''not-json''"
    by (simp add: trim_def js_whitespace_def startsWith_def)
  have 1: "startsWith (trim ''data: not-json'') ''data:''"
    by (simp add: t startsWith_def)
  have 2: "trim ''data: not-json'' \<noteq> ''data: [DONE]''"
    by (simp add: t)
  have 3: "sample_parse (trim (drop 5 (trim ''data: not-json''))) = None"
    by (simp add: t t' sample_parse_def)
  have 4: "callbacks (fst (process_lines sample_parse
         ([''data: {\"type\":\"thinking\",\"message\":\"Searching\"}''] @
          [''data: {\"type\":\"thinking\",\"message\":\"Found 2 items\"}''])))
       = [OnThinking ''Searching'' None, OnThinking ''Found 2 items'' None]"
    by (simp add: process_lines.simps(2) trim_def js_whitespace_def startsWith_def
          parse_data_def sample_parse_def)
  from malformed_frame_is_skipped
         [where line = "''data: not-json''" and parse = sample_parse
            and rest = "[''data: {\"type\":\"thinking\",\"message\":\"Found 2 items\"}'']"
            and before = "[''data: {\"type\":\"thinking\",\"message\":\"Searching\"}'']",
          OF 1 2 3] 1 2 3 4
  show ?thesis by simp
qed

section \<open>The read loop and the end of a stream\<close>

lemma split_newline_nonempty [simp]: "split_newline s \<noteq> []"
  by (induction s) (auto split: list.splits)

lemma split_newline_no_newline: "CHR 0x0A \<notin> set b \<Longrightarrow> split_newline b = [b]"
  by (induction b) auto

lemma last_split_newline_no_newline [simp]: "CHR 0x0A \<notin> set (last (split_newline s))"
proof (induction s)
  case Nil
  show ?case by simp
next
  case (Cons c s)
  then show ?case
    by (cases "split_newline s") auto
qed

lemma split_newline_append:
  "split_newline (x @ y) = butlast (split_newline x) @ split_newline (last (split_newline x) @ y)"
proof (induction x)
  case Nil
  show ?case by simp
next
  case (Cons c x)
  show ?case
  proof (cases "c = CHR 0x0A")
    case True
    with Cons show ?thesis by simp
  next
    case False
    obtain l ls where s: "split_newline x = l # ls"
      by (cases "split_newline x") auto
    show ?thesis
    proof (cases ls)
      case Nil
      with s False Cons show ?thesis
        by (cases "split_newline (l @ y)") auto
    next
      case (Cons l' ls')
      with s False Cons.IH show ?thesis
        by simp
    qed
  qed
qed

lemma await_read_values:
  assumes "isStreamingRef refs" and "CHR 0x0A \<notin> set b"
  shows "await_read parse refs b (map Read_value cs @ rest) =
     (let ls = split_newline (b @ concat cs);
          p = process_lines parse (butlast ls)
      in if snd p then (fst p, Left_loop, refs\<lparr>isStreamingRef := False\<rparr>)
         else (let l = await_read parse refs (last ls) rest
               in (fst p @ fst l, snd l)))"
  using assms(2)
proof (induction cs arbitrary: b)
  case Nil
  then show ?case
    by (simp add: split_newline_no_newline)
next
  case (Cons c cs)
  let ?lines = "split_newline (b @ c)"
  let ?b' = "last ?lines"
  let ?ls' = "split_newline (?b' @ concat cs)"
  have split: "split_newline (b @ c @ concat cs) = butlast ?lines @ ?ls'"
    using split_newline_append [of "b @ c" "concat cs"] by simp
  have bl: "butlast (butlast ?lines @ ?ls') = butlast ?lines @ butlast ?ls'"
    by (simp add: butlast_append)
  have la: "last (butlast ?lines @ ?ls') = last ?ls'"
    by simp
  have ih: "await_read parse refs ?b' (map Read_value cs @ rest) =
     (let ls = ?ls'; p = process_lines parse (butlast ls)
      in if snd p then (fst p, Left_loop, refs\<lparr>isStreamingRef := False\<rparr>)
         else (let l = await_read parse refs (last ls) rest
               in (fst p @ fst l, snd l)))"
    by (rule Cons.IH) simp
  show ?case
    using assms(1)
    by (simp add: split bl la ih process_lines_append Let_def split_beta)
qed

text \<open>
  C8. A line whose trimmed text is exactly \<^verbatim>\<open>[DONE]\<close> or exactly \<^verbatim>\<open>data: [DONE]\<close> ends
  the stream at once: the call of \<^verbatim>\<open>onComplete\<close> is its only effect, so the payload is
  not handed to \<^verbatim>\<open>JSON.parse\<close>, no line after it is looked at, and the loop is left
  without another read.
\<close>

theorem sentinel_line_ends_stream:
  assumes "trim line = ''[DONE]'' \<or> trim line = ''data: [DONE]''"
  shows "process_lines parse (line # rest) = ([Call OnComplete], True)
       \<and> (complete_lines (buffer @ text) = line # rest \<longrightarrow>
            await_read parse refs buffer (Read_value text # later)
              = ([Call OnComplete], Left_loop, refs\<lparr>isStreamingRef := False\<rparr>))"
proof -
  have "is_sentinel line"
    using assms by (simp add: is_sentinel_def)
  then have "process_lines parse (line # rest) = ([Call OnComplete], True)"
    by (rule process_lines_sentinel)
  then show ?thesis
    by (simp add: complete_lines_def Let_def)
qed

theorem sentinel_line_ends_stream_witness:
  "(trim ''  data: [DONE] '' = ''[DONE]'' \<or> trim ''  data: [DONE] '' = ''data: [DONE]'')
   \<and> process_lines sample_parse
        [''  data: [DONE] '', ''data: {\"type\":\"thinking\",\"message\":\"Searching\"}'']
       = ([Call OnComplete], True)"
proof -
  have t: "trim ''  data: [DONE] '' = ''data: [DONE]''"
    by (simp add: trim_def js_whitespace_def startsWith_def)
  then have 1: "trim ''  data: [DONE] '' = ''[DONE]'' \<or> trim ''  data: [DONE] '' = ''data: [DONE]''"
    by simp
  from sentinel_line_ends_stream [OF 1] 1 show ?thesis
    by simp
qed

theorem sentinel_without_space_counterexample:
  "process_lines sample_parse
     [''data:[DONE]'', ''data: {\"type\":\"thinking\",\"message\":\"Searching\"}'']
   = ([JSON_parse ''[DONE]'', Console_warn ''[DONE]'',
       JSON_parse ''{\"type\":\"thinking\",\"message\":\"Searching\"}'',
       Call (OnThinking ''Searching'' None)],
      False)"
  by (simp add: process_lines.simps(2) trim_def js_whitespace_def startsWith_def
        parse_data_def sample_parse_def)

lemma sendStreamMessage_reads:
  "sendStreamMessage parse ctl msg sid (Fetch_response True status (Some reads)) refs =
     (let l = await_read parse \<lparr>abortControllerRef = Some ctl, isStreamingRef = True\<rparr> [] reads;
          pre = (case abortControllerRef refs of None \<Rightarrow> [] | Some c \<Rightarrow> [Abort c])
                @ [Fetch msg sid ctl] @ fst l
      in case fst (snd l) of
           Awaiting buffer \<Rightarrow> (pre, snd (snd l), Some buffer)
         | Left_loop \<Rightarrow> (pre, \<lparr>abortControllerRef = None, isStreamingRef = False\<rparr>, None)
         | Threw e \<Rightarrow>
             (pre @ catch_error e, \<lparr>abortControllerRef = None, isStreamingRef = False\<rparr>, None))"
  by (simp add: sendStreamMessage_unfold try_stream_def read_loop_def Let_def)

lemma fetchSettled_reads:
  "isStreamingRef refs \<Longrightarrow>
   fetchSettled parse (Fetch_response True status (Some reads)) refs =
     (let l = await_read parse refs [] reads
      in case fst (snd l) of
           Awaiting buffer \<Rightarrow> (fst l, snd (snd l), Some buffer)
         | Left_loop \<Rightarrow> (fst l, \<lparr>abortControllerRef = None, isStreamingRef = False\<rparr>, None)
         | Threw e \<Rightarrow>
             (fst l @ catch_error e, \<lparr>abortControllerRef = None, isStreamingRef = False\<rparr>, None))"
  by (simp add: fetchSettled_def try_stream_def read_loop_def Let_def)

text \<open>
  C1. Take a call whose streaming flag is still set when its response arrives and that
  no other call disturbs while it reads. When the frames it reads reach the end marker (a
  complete line that is \<^verbatim>\<open>[DONE]\<close> or \<^verbatim>\<open>data: [DONE]\<close> after trimming, however the text
  is cut into chunks), or when the reader reports the end of the body, \<^verbatim>\<open>onComplete\<close> is
  called exactly once, it is the last thing the call does (no parse, no handler and so no
  change of the transcript after it), \<^verbatim>\<open>onError\<close> is not called, and the call is over.
\<close>

theorem stream_end_completes_once:
  assumes "isStreamingRef refs"
    and "(\<exists>l \<in> set (complete_lines (concat chunks)). is_sentinel l)
         \<or> (\<exists>rest. later = Read_done # rest)"
  shows "let r = fetchSettled parse
                   (Fetch_response True status (Some (map Read_value chunks @ later))) refs
         in count_list (callbacks (fst r)) OnComplete = 1
            \<and> last (fst r) = Call OnComplete
            \<and> (\<forall>e. OnError e \<notin> set (callbacks (fst r)))
            \<and> snd (snd r) = None"
proof -
  let ?ls = "split_newline (concat chunks)"
  let ?p = "process_lines parse (butlast ?ls)"
  have loop: "await_read parse refs [] (map Read_value chunks @ later) =
     (if snd ?p then (fst ?p, Left_loop, refs\<lparr>isStreamingRef := False\<rparr>)
      else (let l = await_read parse refs (last ?ls) later in (fst ?p @ fst l, snd l)))"
    using await_read_values [of refs "[]" parse chunks later] assms(1) by (simp add: Let_def)
  show ?thesis
  proof (cases "snd ?p")
    case True
    then have val: "await_read parse refs [] (map Read_value chunks @ later) =
        (fst ?p, Left_loop, refs\<lparr>isStreamingRef := False\<rparr>)"
      by (simp add: loop)
    have "fst ?p \<noteq> []" "last (fst ?p) = Call OnComplete"
      using True process_lines_complete_last [of parse "butlast ?ls"] by simp_all
    moreover have "count_list (callbacks (fst ?p)) OnComplete = 1"
      using True process_lines_complete_count [of parse "butlast ?ls"] by simp
    ultimately show ?thesis
      using process_lines_no_error [of _ parse "butlast ?ls"]
      by (simp add: fetchSettled_reads [OF assms(1)] val Let_def)
  next
    case False
    then have "\<not> (\<exists>l \<in> set (complete_lines (concat chunks)). is_sentinel l)"
      by (simp add: process_lines_returns_iff complete_lines_def)
    with assms(2) obtain rest where later: "later = Read_done # rest"
      by blast
    have val: "await_read parse refs [] (map Read_value chunks @ later) =
        (fst ?p @ [Call OnComplete], Left_loop, refs\<lparr>isStreamingRef := False\<rparr>)"
      using False by (simp add: loop) (simp add: later)
    have "count_list (callbacks (fst ?p)) OnComplete = 0"
      using False process_lines_complete_count [of parse "butlast ?ls"] by simp
    then show ?thesis
      using process_lines_no_error [of _ parse "butlast ?ls"]
      by (simp add: fetchSettled_reads [OF assms(1)] val Let_def)
  qed
qed

theorem stream_end_completes_once_witness:
  "isStreamingRef (snd (startStream 1 ''rice'' None initial_refs))
   \<and> (\<exists>l \<in> set (complete_lines (concat
        [''data: {\"type\":\"thinking\",\"mess'', ''age\":\"Searching\"}'' @ [CHR 0x0A] @ ''data: [DO'',
         ''NE]'' @ [CHR 0x0A] @ ''data: {\"type\":\"thinking\",\"message\":\"Found 2 items\"}''
           @ [CHR 0x0A]])). is_sentinel l)
   \<and> count_list (callbacks (fst (fetchSettled sample_parse
        (Fetch_response True 200 (Some (map Read_value
           [''data: {\"type\":\"thinking\",\"mess'', ''age\":\"Searching\"}'' @ [CHR 0x0A] @ ''data: [DO'',
            ''NE]'' @ [CHR 0x0A] @ ''data: {\"type\":\"thinking\",\"message\":\"Found 2 items\"}''
              @ [CHR 0x0A]] @ [])))
        (snd (startStream 1 ''rice'' None initial_refs))))) OnComplete = 1"
proof -
  let ?chunks = "[''data: {\"type\":\"thinking\",\"mess'', ''age\":\"Searching\"}'' @ [CHR 0x0A] @ ''data: [DO'',
         ''NE]'' @ [CHR 0x0A] @ ''data: {\"type\":\"thinking\",\"message\":\"Found 2 items\"}''
           @ [CHR 0x0A]]"
  have f: "isStreamingRef (snd (startStream 1 ''rice'' None initial_refs))"
    by (simp add: startStream_def)
  have lines: "complete_lines (concat ?chunks) =
      [''data: {\"type\":\"thinking\",\"message\":\"Searching\"}'', ''data: [DONE]'',
       ''data: {\"type\":\"thinking\",\"message\":\"Found 2 items\"}'']"
    by (simp add: complete_lines_def)
  have s: "is_sentinel ''data: [DONE]''"
    by (simp add: is_sentinel_def trim_def js_whitespace_def startsWith_def)
  have a: "\<exists>l \<in> set (complete_lines (concat ?chunks)). is_sentinel l"
    by (subst lines) (simp add: s)
  then have h: "(\<exists>l \<in> set (complete_lines (concat ?chunks)). is_sentinel l)
           \<or> (\<exists>rest. ([] :: read_result list) = Read_done # rest)"
    by (rule disjI1)
  from stream_end_completes_once [OF f h, of sample_parse 200]
  have c: "count_list (callbacks (fst (fetchSettled sample_parse
             (Fetch_response True 200 (Some (map Read_value ?chunks @ [])))
             (snd (startStream 1 ''rice'' None initial_refs))))) OnComplete = 1"
    by (simp add: Let_def)
  from f a c show ?thesis by (intro conjI)
qed

text \<open>The callbacks of the example above, in a call that nothing interleaves with.\<close>

lemma stream_end_example:
  "callbacks (fst (sendStreamMessage sample_parse 1 ''rice'' None
        (Fetch_response True 200 (Some (map Read_value
           [''data: {\"type\":\"thinking\",\"mess'', ''age\":\"Searching\"}'' @ [CHR 0x0A] @ ''data: [DO'',
            ''NE]'' @ [CHR 0x0A] @ ''data: {\"type\":\"thinking\",\"message\":\"Found 2 items\"}''
              @ [CHR 0x0A]])))
        initial_refs))
     = [OnThinking ''Searching'' None, OnComplete]"
  by (simp add: sendStreamMessage_reads initial_refs_def process_lines.simps(2) trim_def
        js_whitespace_def startsWith_def parse_data_def sample_parse_def Let_def)

theorem done_event_counterexample:
  "callbacks (fst (sendStreamMessage sample_parse 1 ''rice'' None
      (Fetch_response True 200 (Some
         [Read_value (wire [''data: {\"type\":\"done\"}'']),
          Read_value (wire [''data: {\"type\":\"thinking\",\"message\":\"Searching\"}''])]))
      initial_refs))
     = [OnThinking ''Searching'' None]
   \<and> snd (snd (sendStreamMessage sample_parse 1 ''rice'' None
      (Fetch_response True 200 (Some [Read_value (wire [''data: {\"type\":\"done\"}''])]))
      initial_refs))
     = Some []"
  by (simp add: sendStreamMessage_reads initial_refs_def wire_def process_lines.simps(2) trim_def
        js_whitespace_def startsWith_def parse_data_def sample_parse_def Let_def)
section \<open>The runs of the examples\<close>

text \<open>
  The values of the example runs, stage by stage: the page state, the refs of the hook and
  the effects.
\<close>

lemmas frame_simps =
  wire_def process_lines.simps(2) trim_def js_whitespace_def startsWith_def parse_data_def
  sample_parse_def

lemmas page_simps =
  sendMessage_def startStream_def closure_of_def setChats_def render_def
  removeThinkingMessages_def handleThinking_def handleThinking_updater_def
  handleConversationChunk_def handleConversationChunk_updater_def handleStreamComplete_def
  removeThinkingMessages_updater_def append_updater_def updateSessionId_def isCurrentStream_def
  or_undefined_def string_of_nat.simps rendered_def Let_def

lemma settle_searching:
  "fetchSettled sample_parse
     (Fetch_response True 200
        (Some [Read_value (wire [''data: {\"type\":\"thinking\",\"message\":\"Searching\"}''])]))
     \<lparr>abortControllerRef = Some 11, isStreamingRef = True\<rparr>
   = ([JSON_parse ''{\"type\":\"thinking\",\"message\":\"Searching\"}'',
       Call (OnThinking ''Searching'' None)],
      \<lparr>abortControllerRef = Some 11, isStreamingRef = True\<rparr>, Some [])"
  by (simp add: fetchSettled_reads frame_simps Let_def)

lemma request1_value:
  "request1 =
     ((\<lparr>chats = [\<lparr>chat_id = ''c1'', title = ''New Chat'',
                   messages = [\<lparr>msg_id = ''m1000'', msg_type = User, body = Content ''rice'',
                                streamId = None\<rparr>,
                               \<lparr>msg_id = ''thinking1003'', msg_type = Bot_thinking,
                                body = Content ''Searching'',
                                streamId = Some ''stream_1000_ab''\<rparr>]\<rparr>],
        activeChatId = ''c1'', isLoading = True, sessionId = None,
        cart_itemCount = 0, cart_total = 0, pending = [],
        currentStreamIdRef = Some ''stream_1000_ab''\<rparr>,
       \<lparr>abortControllerRef = Some 11, isStreamingRef = True\<rparr>),
      [Fetch ''rice'' None 11, JSON_parse ''{\"type\":\"thinking\",\"message\":\"Searching\"}'',
       Call (OnThinking ''Searching'' None)],
      Some [])"
  unfolding request1_def request_run_def settleRequest_def
  by (simp add: initial_state_def initial_refs_def settle_searching page_simps sample_clock_def)

lemma request2_sent_value:
  "request2_sent =
     ((\<lparr>chats = [\<lparr>chat_id = ''c1'', title = ''New Chat'',
                   messages = [\<lparr>msg_id = ''m1000'', msg_type = User, body = Content ''rice'',
                                streamId = None\<rparr>,
                               \<lparr>msg_id = ''thinking1003'', msg_type = Bot_thinking,
                                body = Content ''Searching'',
                                streamId = Some ''stream_1000_ab''\<rparr>]\<rparr>],
        activeChatId = ''c1'', isLoading = True, sessionId = None,
        cart_itemCount = 0, cart_total = 0,
        pending = [append_updater ''c1''
                     \<lparr>msg_id = ''m2000'', msg_type = User, body = Content ''dal'',
                      streamId = None\<rparr>],
        currentStreamIdRef = Some ''stream_2000_cd''\<rparr>,
       \<lparr>abortControllerRef = Some 12, isStreamingRef = True\<rparr>),
      [Abort 11, Fetch ''dal'' None 12])"
  unfolding request2_sent_def request1_value
  by (simp add: sendMessage_def startStream_def closure_of_def setChats_def string_of_nat.simps
        Let_def)

lemma after_abort_value:
  "snd request1_aborted = ([], None)
   \<and> after_abort =
     (\<lparr>chats = [\<lparr>chat_id = ''c1'', title = ''New Chat'',
                   messages = [\<lparr>msg_id = ''m1000'', msg_type = User, body = Content ''rice'',
                                streamId = None\<rparr>,
                               \<lparr>msg_id = ''thinking1003'', msg_type = Bot_thinking,
                                body = Content ''Searching'',
                                streamId = Some ''stream_1000_ab''\<rparr>,
                               \<lparr>msg_id = ''m2000'', msg_type = User, body = Content ''dal'',
                                streamId = None\<rparr>]\<rparr>],
        activeChatId = ''c1'', isLoading = True, sessionId = None,
        cart_itemCount = 0, cart_total = 0, pending = [],
        currentStreamIdRef = Some ''stream_2000_cd''\<rparr>,
       \<lparr>abortControllerRef = None, isStreamingRef = False\<rparr>)"
  unfolding after_abort_def request1_aborted_def request2_sent_value resumeRequest_def
  by (simp add: resumeStream_def page_simps)


lemma request3_sent_value:
  "request3_sent =
     ((\<lparr>chats = [\<lparr>chat_id = ''c1'', title = ''New Chat'',
                   messages = [\<lparr>msg_id = ''m1000'', msg_type = User, body = Content ''rice'',
                                streamId = None\<rparr>,
                               \<lparr>msg_id = ''thinking1003'', msg_type = Bot_thinking,
                                body = Content ''Searching'',
                                streamId = Some ''stream_1000_ab''\<rparr>,
                               \<lparr>msg_id = ''m2000'', msg_type = User, body = Content ''dal'',
                                streamId = None\<rparr>]\<rparr>],
        activeChatId = ''c1'', isLoading = True, sessionId = None,
        cart_itemCount = 0, cart_total = 0,
        pending = [append_updater ''c1''
                     \<lparr>msg_id = ''m3000'', msg_type = User, body = Content ''moong'',
                      streamId = None\<rparr>],
        currentStreamIdRef = Some ''stream_3000_ef''\<rparr>,
       \<lparr>abortControllerRef = Some 13, isStreamingRef = True\<rparr>),
      [Fetch ''moong'' None 13])"
  unfolding request3_sent_def conjunct2 [OF after_abort_value]
  by (simp add: sendMessage_def startStream_def closure_of_def setChats_def string_of_nat.simps
        Let_def)

lemma settle_found:
  "fetchSettled sample_parse
     (Fetch_response True 200
        (Some [Read_value (wire [''data: {\"type\":\"thinking\",\"message\":\"Found 2 items\"}''])]))
     \<lparr>abortControllerRef = Some 13, isStreamingRef = True\<rparr>
   = ([JSON_parse ''{\"type\":\"thinking\",\"message\":\"Found 2 items\"}'',
       Call (OnThinking ''Found 2 items'' None)],
      \<lparr>abortControllerRef = Some 13, isStreamingRef = True\<rparr>, Some [])"
  by (simp add: fetchSettled_reads frame_simps Let_def)

lemma after_frame_value:
  "snd request2_open =
     ([JSON_parse ''{\"type\":\"thinking\",\"message\":\"Found 2 items\"}'',
       Call (OnThinking ''Found 2 items'' None)], Some [])
   \<and> after_frame =
     (\<lparr>chats = [\<lparr>chat_id = ''c1'', title = ''New Chat'',
                   messages = [\<lparr>msg_id = ''m1000'', msg_type = User, body = Content ''rice'',
                                streamId = None\<rparr>,
                               \<lparr>msg_id = ''thinking1003'', msg_type = Bot_thinking,
                                body = Content ''Searching'',
                                streamId = Some ''stream_1000_ab''\<rparr>,
                               \<lparr>msg_id = ''m2000'', msg_type = User, body = Content ''dal'',
                                streamId = None\<rparr>,
                               \<lparr>msg_id = ''m3000'', msg_type = User, body = Content ''moong'',
                                streamId = None\<rparr>,
                               \<lparr>msg_id = ''thinking3100'', msg_type = Bot_thinking,
                                body = Content ''Found 2 items'',
                                streamId = Some ''stream_3000_ef''\<rparr>]\<rparr>],
        activeChatId = ''c1'', isLoading = True, sessionId = None,
        cart_itemCount = 0, cart_total = 0,
        pending = [],
        currentStreamIdRef = Some ''stream_3000_ef''\<rparr>,
      \<lparr>abortControllerRef = Some 13, isStreamingRef = True\<rparr>)"
  unfolding after_frame_def request2_open_def request3_sent_value request1_value
    settleRequest_def
  by (simp add: settle_found page_simps)

lemma request4_sent_value:
  "request4_sent =
     ((\<lparr>chats = [\<lparr>chat_id = ''c1'', title = ''New Chat'',
                   messages = [\<lparr>msg_id = ''m1000'', msg_type = User, body = Content ''rice'',
                                streamId = None\<rparr>,
                               \<lparr>msg_id = ''thinking1003'', msg_type = Bot_thinking,
                                body = Content ''Searching'',
                                streamId = Some ''stream_1000_ab''\<rparr>,
                               \<lparr>msg_id = ''m2000'', msg_type = User, body = Content ''dal'',
                                streamId = None\<rparr>,
                               \<lparr>msg_id = ''m3000'', msg_type = User, body = Content ''moong'',
                                streamId = None\<rparr>,
                               \<lparr>msg_id = ''thinking3100'', msg_type = Bot_thinking,
                                body = Content ''Found 2 items'',
                                streamId = Some ''stream_3000_ef''\<rparr>]\<rparr>],
        activeChatId = ''c1'', isLoading = True, sessionId = None,
        cart_itemCount = 0, cart_total = 0,
        pending = [append_updater ''c1''
                     \<lparr>msg_id = ''m4000'', msg_type = User, body = Content ''urad'',
                      streamId = None\<rparr>],
        currentStreamIdRef = Some ''stream_4000_gh''\<rparr>,
       \<lparr>abortControllerRef = Some 14, isStreamingRef = True\<rparr>),
      [Abort 13, Fetch ''urad'' None 14])"
  unfolding request4_sent_def conjunct2 [OF after_frame_value]
  by (simp add: sendMessage_def startStream_def closure_of_def setChats_def string_of_nat.simps
        Let_def)


lemma after_complete_value:
  "snd request3_aborted = ([], None)
   \<and> snd request2_complete = ([Call OnComplete], None)
   \<and> after_complete =
     (\<lparr>chats = [\<lparr>chat_id = ''c1'', title = ''New Chat'',
                   messages = [\<lparr>msg_id = ''m1000'', msg_type = User, body = Content ''rice'',
                                streamId = None\<rparr>,
                               \<lparr>msg_id = ''thinking1003'', msg_type = Bot_thinking,
                                body = Content ''Searching'',
                                streamId = Some ''stream_1000_ab''\<rparr>,
                               \<lparr>msg_id = ''m2000'', msg_type = User, body = Content ''dal'',
                                streamId = None\<rparr>,
                               \<lparr>msg_id = ''m3000'', msg_type = User, body = Content ''moong'',
                                streamId = None\<rparr>,
                               \<lparr>msg_id = ''thinking3100'', msg_type = Bot_thinking,
                                body = Content ''Found 2 items'',
                                streamId = Some ''stream_3000_ef''\<rparr>,
                               \<lparr>msg_id = ''m4000'', msg_type = User, body = Content ''urad'',
                                streamId = None\<rparr>]\<rparr>],
        activeChatId = ''c1'', isLoading = False, sessionId = None,
        cart_itemCount = 0, cart_total = 0,
        pending = [],
        currentStreamIdRef = Some ''stream_4000_gh''\<rparr>,
      \<lparr>abortControllerRef = None, isStreamingRef = False\<rparr>)"
  unfolding after_complete_def request2_complete_def request3_aborted_def request4_sent_value
    request1_value conjunct2 [OF after_abort_value] settleRequest_def resumeRequest_def
  by (simp add: fetchSettled_def try_stream_def resumeStream_def frame_simps page_simps)
section \<open>Replace within a request\<close>

lemma do_step_cur [simp]: "currentStreamIdRef (do_step maps s st) = currentStreamIdRef st"
  by (cases s) simp_all

lemma run_steps_cur [simp]: "currentStreamIdRef (run_steps maps steps st) = currentStreamIdRef st"
  unfolding run_steps_def by (induction steps arbitrary: st) simp_all

lemma run_steps_snoc:
  "run_steps maps (steps @ [s]) st = do_step maps s (run_steps maps steps st)"
  by (simp add: run_steps_def)

text \<open>
  C4. Let the request identity be a non-empty string, and let no request be sent in the
  meantime, so that the identity stays the current one. Then after a thinking event of the
  open request and the render that follows, whatever steps came before (earlier thinking
  events of the request, other callbacks, renders), the transcript of the session of the
  handler holds exactly one thinking entry of that request: the entry made from this last
  event, which is also the last entry of the transcript. The updater of the event filters
  the thinking entries of the request out before it appends its own.
\<close>

theorem thinking_replaced_within_request:
  assumes "currentStreamIdRef st = Some sid" and "sid \<noteq> []"
    and "c \<in> set (chats (render rnow
                 (run_steps maps (before @ [Invoke cl now (OnThinking message session_id)]) st)))"
    and "chat_id c = cl_activeChatId cl"
  shows "filter (\<lambda>m. msg_type m = Bot_thinking \<and> isCurrentStream (Some sid) m) (messages c)
           = [\<lparr>msg_id = ''thinking'' @ string_of_nat (now 0),
               msg_type = Bot_thinking,
               body = Content message,
               streamId = Some sid\<rparr>]
       \<and> last (messages c)
           = \<lparr>msg_id = ''thinking'' @ string_of_nat (now 0),
              msg_type = Bot_thinking,
              body = Content message,
              streamId = Some sid\<rparr>"
proof -
  let ?a = "cl_activeChatId cl"
  let ?new = "\<lparr>msg_id = ''thinking'' @ string_of_nat (now 0),
               msg_type = Bot_thinking,
               body = Content message,
               streamId = Some sid\<rparr>"
  let ?P = "\<lambda>m. msg_type m = Bot_thinking \<and> isCurrentStream (Some sid) m"
  let ?st1 = "run_steps maps before st"
  let ?st2 = "handleThinking now ?a message session_id ?st1"
  let ?prev = "run_updaters (Some sid) rnow (pending ?st1) (chats ?st1)"
  let ?F = "\<lambda>c. if chat_id c \<noteq> ?a then c
                 else c\<lparr>messages := filter (\<lambda>m. \<not> ?P m) (messages c) @ [?new]\<rparr>"
  have cur: "currentStreamIdRef ?st1 = Some sid"
    using assms(1) by simp
  have run: "run_steps maps (before @ [Invoke cl now (OnThinking message session_id)]) st = ?st2"
    by (simp add: run_steps_snoc)
  have pend: "pending ?st2 = pending ?st1 @ [handleThinking_updater ?a ?new]"
    using cur assms(2) by (simp add: handleThinking_def or_undefined_def Let_def)
  have "chats ?st2 = chats ?st1" "currentStreamIdRef ?st2 = Some sid"
    using cur by (simp_all add: handleThinking_def Let_def)
  then have "chats (render rnow ?st2) =
               handleThinking_updater ?a ?new (Some sid) (rnow (length (pending ?st1))) ?prev"
    by (simp add: pend run_updaters_append)
  then have "chats (render rnow ?st2) = map ?F ?prev"
    by (simp add: handleThinking_updater_def)
  with assms(3) have "c \<in> ?F ` set ?prev"
    unfolding run by (simp only: set_map)
  then obtain c0 where c0: "c = ?F c0"
    by (rule imageE)
  have m: "messages c = filter (\<lambda>m. \<not> ?P m) (messages c0) @ [?new]"
  proof (cases "chat_id c0 \<noteq> ?a")
    case True
    with c0 have "c = c0" by simp
    with True assms(4) show ?thesis by simp
  next
    case False
    with c0 show ?thesis by simp
  qed
  have "?P ?new"
    by (simp add: isCurrentStream_def)
  then show ?thesis
    by (simp add: m)
qed

theorem thinking_replaced_within_request_witness:
  "currentStreamIdRef two_chats = Some ''stream_1_a''
   \<and> messages (chats (render (\<lambda>k. 2500)
        (run_steps sample_maps
           ([Invoke (closure_of two_chats) (sample_clock 0) (OnThinking ''Looking'' None),
             Render (\<lambda>k. 1500)]
            @ [Invoke (closure_of two_chats) (sample_clock 1) (OnThinking ''Found 2 items'' None)])
           two_chats)) ! 0)
     = [\<lparr>msg_id = ''m1'', msg_type = User, body = Content ''rice'', streamId = None\<rparr>,
        \<lparr>msg_id = ''thinking1001'', msg_type = Bot_thinking, body = Content ''Found 2 items'',
         streamId = Some ''stream_1_a''\<rparr>]
   \<and> filter (\<lambda>m. msg_type m = Bot_thinking \<and> isCurrentStream (Some ''stream_1_a'') m)
        (messages (chats (render (\<lambda>k. 2500)
           (run_steps sample_maps
              ([Invoke (closure_of two_chats) (sample_clock 0) (OnThinking ''Looking'' None),
                Render (\<lambda>k. 1500)]
               @ [Invoke (closure_of two_chats) (sample_clock 1)
                    (OnThinking ''Found 2 items'' None)])
              two_chats)) ! 0))
     = [\<lparr>msg_id = ''thinking1001'', msg_type = Bot_thinking, body = Content ''Found 2 items'',
         streamId = Some ''stream_1_a''\<rparr>]"
proof -
  let ?run = "render (\<lambda>k. 2500)
        (run_steps sample_maps
           ([Invoke (closure_of two_chats) (sample_clock 0) (OnThinking ''Looking'' None),
             Render (\<lambda>k. 1500)]
            @ [Invoke (closure_of two_chats) (sample_clock 1) (OnThinking ''Found 2 items'' None)])
           two_chats)"
  have 1: "currentStreamIdRef two_chats = Some ''stream_1_a''"
    by (simp add: two_chats_def)
  have 2: "''stream_1_a'' \<noteq> []" by simp
  have run: "chats ?run
     = [\<lparr>chat_id = ''c1'', title = ''New Chat'',
         messages =
           [\<lparr>msg_id = ''m1'', msg_type = User, body = Content ''rice'', streamId = None\<rparr>,
            \<lparr>msg_id = ''thinking1001'', msg_type = Bot_thinking,
             body = Content ''Found 2 items'', streamId = Some ''stream_1_a''\<rparr>]\<rparr>,
        \<lparr>chat_id = ''c2'', title = ''New Chat'',
         messages = [\<lparr>msg_id = ''thinking0'', msg_type = Bot_thinking,
                      body = Content ''Searching'', streamId = Some ''stream_1_a''\<rparr>]\<rparr>]"
    by (simp add: run_steps_def two_chats_def closure_of_def handleThinking_def
          handleThinking_updater_def setChats_def render_def updateSessionId_def
          isCurrentStream_def or_undefined_def sample_clock_def Let_def string_of_nat.simps)
  have 3: "chats ?run ! 0 \<in> set (chats ?run)"
    unfolding run by simp
  have 4: "chat_id (chats ?run ! 0) = cl_activeChatId (closure_of two_chats)"
    unfolding run by (simp add: two_chats_def closure_of_def)
  from thinking_replaced_within_request [OF 1 2 3 4] 1 run
  show ?thesis
    by (simp add: sample_clock_def string_of_nat.simps)
qed

text \<open>
  When a request is sent between a thinking event and the render that runs its updater,
  the updater filters by the identity of the new request: both thinking entries of the
  first request are in the transcript afterwards. In the example the second thinking
  event brings a session identifier, so that its handler calls \<^verbatim>\<open>setSessionId\<close> before
  \<^verbatim>\<open>setChats\<close>.
\<close>

theorem thinking_kept_counterexample:
  "snd (snd request1) = Some []
   \<and> messages (chats send_before_render ! 0)
     = [\<lparr>msg_id = ''m1000'', msg_type = User, body = Content ''rice'', streamId = None\<rparr>,
        \<lparr>msg_id = ''thinking1003'', msg_type = Bot_thinking, body = Content ''Searching'',
         streamId = Some ''stream_1000_ab''\<rparr>,
        \<lparr>msg_id = ''thinking1500'', msg_type = Bot_thinking, body = Content ''Found 2 items'',
         streamId = Some ''stream_1000_ab''\<rparr>,
        \<lparr>msg_id = ''m2000'', msg_type = User, body = Content ''dal'', streamId = None\<rparr>]"
proof -
  have h: "resumeStream sample_parse \<lparr>abortControllerRef = Some 11, isStreamingRef = True\<rparr> []
             [Read_value
                (wire [''data: {\"type\":\"thinking\",\"message\":\"Found 2 items\",\"session_id\":\"s1\"}''])]
           = ([JSON_parse
                 ''{\"type\":\"thinking\",\"message\":\"Found 2 items\",\"session_id\":\"s1\"}'',
               Call (OnThinking ''Found 2 items'' (Some ''s1''))],
              \<lparr>abortControllerRef = Some 11, isStreamingRef = True\<rparr>, Some [])"
    by (simp add: resumeStream_def frame_simps Let_def)
  show ?thesis
    unfolding send_before_render_def request1_value resumeRequest_def
    by (simp add: h initial_state_def page_simps)
qed
section \<open>Transport failure\<close>

lemma map_same_messages [simp]:
  "map (\<lambda>c. if chat_id c = a then c\<lparr>messages := messages c\<rparr> else c) cs = cs"
  "map (\<lambda>c. if chat_id c = a then c\<lparr>messages := messages c @ []\<rparr> else c) cs = cs"
  by (rule map_idI, simp)+

lemma fetchSettled_failure:
  assumes "(\<exists>n m. f = Fetch_rejects (Error_instance n m) \<and> n \<noteq> ''AbortError'')
           \<or> (\<exists>status body. f = Fetch_response False status body)"
  shows "\<exists>e. fetchSettled parse f refs
               = ([Call (OnError e)], \<lparr>abortControllerRef = None, isStreamingRef = False\<rparr>, None)"
  using assms by (auto simp: fetchSettled_def try_stream_def Let_def)

text \<open>
  C7. A request whose transport fails before any frame is read (the fetch is rejected
  with an error other than an abort, or the response has a non-success status) calls
  \<^verbatim>\<open>onError\<close> exactly once and nothing else, and the call is over. On the page, once
  React has rendered, the transcript of the session the request was sent from is: the
  entries it had, without the thinking and tool-executing entries that carry the identity
  of this request; the user entry of this request if one was asked for; and, exactly when
  the transcript had entries in the render the request was sent from (the session list its
  handlers closed over), one error entry of type \<^verbatim>\<open>network_error\<close> with
  \<^verbatim>\<open>retry_possible\<close>. The other sessions are unchanged. So when no conversation chunk
  with the identity of the request was there before, the transcript holds no transient
  entry of the failed request afterwards.
\<close>

theorem transport_failure_reported_once:
  assumes "(\<exists>n m. f = Fetch_rejects (Error_instance n m) \<and> n \<noteq> ''AbortError'')
           \<or> (\<exists>status body. f = Fetch_response False status body)"
  shows "let r = request_run parse maps clock rnd ctl cl msg appendMessage f (st, refs);
             st' = fst (fst r);
             newStreamId = ''stream_'' @ string_of_nat (clock 0 0) @ ''_'' @ rnd
         in (\<exists>e. callbacks (fst (snd r)) = [OnError e])
            \<and> snd (snd r) = None
            \<and> snd (fst r) = \<lparr>abortControllerRef = None, isStreamingRef = False\<rparr>
            \<and> pending st' = []
            \<and> chats st' =
                map (\<lambda>c. if chat_id c = cl_activeChatId cl
                         then c\<lparr>messages :=
                                filter (\<lambda>m. \<not> swept (Some newStreamId) m) (messages c)
                                @ (if appendMessage
                                   then [\<lparr>msg_id = ''m'' @ string_of_nat (clock 0 1),
                                          msg_type = User, body = Content msg,
                                          streamId = None\<rparr>]
                                   else [])
                                @ (if (case List.find (\<lambda>c. chat_id c = cl_activeChatId cl)
                                               (cl_chats cl) of
                                         None \<Rightarrow> False
                                       | Some currentChat \<Rightarrow> messages currentChat \<noteq> [])
                                   then [\<lparr>msg_id = ''e'' @ string_of_nat (clock 3 0),
                                          msg_type = Bot_error,
                                          body = Error_data
                                            \<lparr>err_success = False,
                                             err_error_type = ''network_error'',
                                             err_recovery_action = Some ''retry_operation'',
                                             err_retry_possible = Some True,
                                             err_message =
                                               ''Sorry, I encountered an error. Please try again.''\<rparr>,
                                          streamId = None\<rparr>]
                                   else [])\<rparr>
                         else c)
                  (run_updaters (Some newStreamId) (clock 1) (pending st) (chats st))
            \<and> ((\<forall>c \<in> set (run_updaters (Some newStreamId) (clock 1) (pending st) (chats st)).
                  \<forall>m \<in> set (messages c).
                    \<not> (msg_type m = Bot_conversation_chunk
                       \<and> isCurrentStream (Some newStreamId) m))
                 \<longrightarrow> (\<forall>c \<in> set (chats st'). chat_id c = cl_activeChatId cl \<longrightarrow>
                        (\<forall>m \<in> set (messages c). \<not> transient (Some newStreamId) m)))"
proof -
  let ?sid = "''stream_'' @ string_of_nat (clock 0 0) @ ''_'' @ rnd"
  let ?a = "cl_activeChatId cl"
  let ?cl = "cl"
  let ?user = "\<lparr>msg_id = ''m'' @ string_of_nat (clock 0 1), msg_type = User,
                body = Content msg, streamId = None\<rparr>"
  let ?err = "\<lparr>msg_id = ''e'' @ string_of_nat (clock 3 0),
               msg_type = Bot_error,
               body = Error_data
                        \<lparr>err_success = False,
                         err_error_type = ''network_error'',
                         err_recovery_action = Some ''retry_operation'',
                         err_retry_possible = Some True,
                         err_message = ''Sorry, I encountered an error. Please try again.''\<rparr>,
               streamId = None\<rparr>"
  let ?should = "case List.find (\<lambda>c. chat_id c = cl_activeChatId cl) (cl_chats cl) of
                   None \<Rightarrow> False | Some currentChat \<Rightarrow> messages currentChat \<noteq> []"
  let ?X = "run_updaters (Some ?sid) (clock 1) (pending st) (chats st)"
  let ?b = "sendMessage (clock 0) rnd ctl ?cl msg appendMessage (st, refs)"
  let ?page = "render (clock 1) (fst (fst ?b))"
  obtain e where h: "fetchSettled parse f (snd (fst ?b))
      = ([Call (OnError e)], \<lparr>abortControllerRef = None, isStreamingRef = False\<rparr>, None)"
    using fetchSettled_failure [OF assms] by blast
  let ?st2 = "handleStreamError (clock 3) ?cl e ?page"
  have r: "request_run parse maps clock rnd ctl cl msg appendMessage f (st, refs)
             = ((render (clock 2) ?st2, \<lparr>abortControllerRef = None, isStreamingRef = False\<rparr>),
                snd ?b @ [Call (OnError e)], None)"
    by (simp add: request_run_def settleRequest_def h Let_def)
  have cur: "currentStreamIdRef (fst (fst ?b)) = Some ?sid"
    by (simp add: sendMessage_def Let_def)
  have page: "chats ?page =
      map (\<lambda>c. if chat_id c = ?a
               then c\<lparr>messages := messages c @ (if appendMessage then [?user] else [])\<rparr>
               else c) ?X"
    by (simp add: sendMessage_def run_updaters_append append_updater_def Let_def)
  have st2: "chats (render (clock 2) ?st2) =
      map (\<lambda>c. if chat_id c = ?a
               then c\<lparr>messages := messages c @ (if ?should then [?err] else [])\<rparr>
               else c)
        (removeThinkingMessages_updater ?a (Some ?sid) (clock 2 0) (chats ?page))"
    using cur
    by (simp add: handleStreamError_def Let_def append_updater_def)
  have final: "chats (render (clock 2) ?st2) =
      map (\<lambda>c. if chat_id c = ?a
               then c\<lparr>messages := filter (\<lambda>m. \<not> swept (Some ?sid) m) (messages c)
                      @ (if appendMessage then [?user] else [])
                      @ (if ?should then [?err] else [])\<rparr>
               else c) ?X"
    unfolding st2 page removeThinkingMessages_updater_def
    by (simp add: comp_def swept_def isCurrentStream_def cong: map_cong)
  have quiet: "callbacks (snd ?b) = []"
    by (simp add: sendMessage_def startStream_def Let_def)
  have none: "\<forall>c \<in> set (chats (render (clock 2) ?st2)). chat_id c = ?a \<longrightarrow>
                 (\<forall>m \<in> set (messages c). \<not> transient (Some ?sid) m)"
    if fresh: "\<forall>c \<in> set ?X. \<forall>m \<in> set (messages c).
                 \<not> (msg_type m = Bot_conversation_chunk \<and> isCurrentStream (Some ?sid) m)"
  proof (intro ballI impI)
    fix c m
    assume c: "c \<in> set (chats (render (clock 2) ?st2))" and a: "chat_id c = ?a"
      and m: "m \<in> set (messages c)"
    from c obtain c0 where c0: "c0 \<in> set ?X"
      and eq: "c = (if chat_id c0 = ?a
               then c0\<lparr>messages := filter (\<lambda>m. \<not> swept (Some ?sid) m) (messages c0)
                      @ (if appendMessage then [?user] else [])
                      @ (if ?should then [?err] else [])\<rparr>
               else c0)"
      unfolding final set_map by blast
    from a eq have "chat_id c0 = ?a"
      by (cases "chat_id c0 = ?a") simp_all
    with eq m have "(m \<in> set (messages c0) \<and> \<not> swept (Some ?sid) m) \<or> streamId m = None"
      by (auto split: if_splits)
    with fresh c0 show "\<not> transient (Some ?sid) m"
      by (auto simp: transient_def swept_def isCurrentStream_def)
  qed
  show ?thesis
    unfolding r Let_def fst_conv snd_conv
    using final quiet none by simp
qed

text \<open>
  Two failing requests: one on a transcript that holds a thinking entry with the very
  identity the failing request gets, which is swept, and one on the fresh page, where no
  error entry is added.
\<close>

theorem transport_failure_reported_once_witness:
  "map (\<lambda>m. (msg_id m, msg_type m)) (messages (chats (fst (fst
         (request_run sample_parse sample_maps (\<lambda>k i. k * 1000 + i + 1) ''a'' 3 (closure_of two_chats) ''moong'' True
            (Fetch_response False 503 None) (two_chats, initial_refs)))) ! 0))
       = [(''m1'', User), (''m2'', User), (''e3001'', Bot_error)]
   \<and> map (\<lambda>m. (msg_id m, msg_type m)) (messages (chats (fst (fst
         (request_run sample_parse sample_maps sample_clock ''x9'' 3 (closure_of initial_state)
            ''rice'' True
            (Fetch_rejects (Error_instance ''TypeError'' ''Failed to fetch''))
            (initial_state, initial_refs)))) ! 0))
       = [(''m1000'', User)]"
proof -
  have f1: "(\<exists>n m. Fetch_response False 503 None = Fetch_rejects (Error_instance n m)
               \<and> n \<noteq> ''AbortError'')
            \<or> (\<exists>status body. Fetch_response False 503 None = Fetch_response False status body)"
    by simp
  have f2: "(\<exists>n m. Fetch_rejects (Error_instance ''TypeError'' ''Failed to fetch'')
                     = Fetch_rejects (Error_instance n m) \<and> n \<noteq> ''AbortError'')
            \<or> (\<exists>status body. Fetch_rejects (Error_instance ''TypeError'' ''Failed to fetch'')
                     = Fetch_response False status body)"
    by simp
  have r1: "map (\<lambda>m. (msg_id m, msg_type m)) (messages (chats (fst (fst
         (request_run sample_parse sample_maps (\<lambda>k i. k * 1000 + i + 1) ''a'' 3 (closure_of two_chats) ''moong'' True
            (Fetch_response False 503 None) (two_chats, initial_refs)))) ! 0))
       = [(''m1'', User), (''m2'', User), (''e3001'', Bot_error)]"
    using transport_failure_reported_once
            [where parse = sample_parse and maps = sample_maps and ctl = 3 and msg = "''moong''"
               and appendMessage = True and refs = initial_refs
               and clock = "\<lambda>k i. k * 1000 + i + 1"
               and rnd = "''a''" and st = two_chats and cl = "closure_of two_chats"
               and f = "Fetch_response False 503 None", OF f1]
    unfolding Let_def
    by (simp add: two_chats_def closure_of_def swept_def isCurrentStream_def
          string_of_nat.simps)
  have r2: "map (\<lambda>m. (msg_id m, msg_type m)) (messages (chats (fst (fst
         (request_run sample_parse sample_maps sample_clock ''x9'' 3 (closure_of initial_state)
            ''rice'' True
            (Fetch_rejects (Error_instance ''TypeError'' ''Failed to fetch''))
            (initial_state, initial_refs)))) ! 0))
       = [(''m1000'', User)]"
    using transport_failure_reported_once
            [where parse = sample_parse and maps = sample_maps and ctl = 3 and msg = "''rice''"
               and appendMessage = True and refs = initial_refs and clock = sample_clock
               and rnd = "''x9''" and st = initial_state and cl = "closure_of initial_state"
               and f = "Fetch_rejects (Error_instance ''TypeError'' ''Failed to fetch'')",
             OF f2]
    unfolding Let_def
    by (simp add: initial_state_def closure_of_def sample_clock_def string_of_nat.simps)
  from r1 r2 show ?thesis
    by (rule conjI)
qed

section \<open>The payment heuristic\<close>

lemma startsWith_append:
  "startsWith s (p @ q) = (startsWith s p \<and> startsWith (drop (length p) s) q)"
proof
  assume "startsWith s (p @ q)"
  then have t: "take (length p + length q) s = p @ q"
    by (simp add: startsWith_def)
  have "take (length p) (take (length p + length q) s) = take (length p) s"
    by (simp add: min_def)
  with t have 1: "take (length p) s = p"
    by simp
  have "take (length q) (drop (length p) s) = drop (length p) (take (length p + length q) s)"
    by (simp add: drop_take add.commute)
  with t have 2: "take (length q) (drop (length p) s) = q"
    by simp
  from 1 2 show "startsWith s p \<and> startsWith (drop (length p) s) q"
    by (simp add: startsWith_def)
next
  assume "startsWith s p \<and> startsWith (drop (length p) s) q"
  then have 1: "take (length p) s = p" and 2: "take (length q) (drop (length p) s) = q"
    by (simp_all add: startsWith_def)
  have "take (length p + length q) s
          = take (length p) s @ take (length q) (drop (length p) s)"
    by (rule take_add)
  with 1 2 show "startsWith s (p @ q)"
    by (simp add: startsWith_def)
qed

lemma startsWith_includes: "startsWith s p \<Longrightarrow> includes_str s p"
  by (cases s) (auto simp: startsWith_def)

lemma capture_amount_prefix: "\<exists>rest. r = capture_amount r @ rest"
proof (cases "dropWhile is_digit r")
  case Nil
  have cap: "capture_amount r = takeWhile is_digit r"
    unfolding capture_amount_def Let_def Nil by simp
  have tw: "takeWhile is_digit r @ [] = r"
    using takeWhile_dropWhile_id [of is_digit r] unfolding Nil .
  have "r = capture_amount r @ []"
    unfolding cap tw ..
  then show ?thesis ..
next
  case (Cons c r')
  have id: "takeWhile is_digit r @ c # r' = r"
    using takeWhile_dropWhile_id [of is_digit r] unfolding Cons .
  show ?thesis
  proof (cases "c = CHR ''.''")
    case True
    have "capture_amount r = takeWhile is_digit r @ ''.'' @ takeWhile is_digit r'"
      unfolding capture_amount_def Let_def Cons using True by simp
    moreover have "r = (takeWhile is_digit r @ ''.'' @ takeWhile is_digit r') @ dropWhile is_digit r'"
      using id True by simp
    ultimately have "r = capture_amount r @ dropWhile is_digit r'"
      by simp
    then show ?thesis ..
  next
    case False
    have "capture_amount r = takeWhile is_digit r"
      unfolding capture_amount_def Let_def Cons using False by simp
    with id have "r = capture_amount r @ c # r'"
      by simp
    then show ?thesis ..
  qed
qed

lemma startsWith_capture_amount: "startsWith r (capture_amount r)"
proof -
  obtain rest where "r = capture_amount r @ rest"
    using capture_amount_prefix by blast
  then have "take (length (capture_amount r)) r
               = take (length (capture_amount r)) (capture_amount r @ rest)"
    by simp
  then have "take (length (capture_amount r)) r = capture_amount r"
    by simp
  then show ?thesis
    by (simp add: startsWith_def)
qed

lemma capture_amount_digit:
  "r = d # r' \<Longrightarrow> is_digit d \<Longrightarrow> capture_amount r \<noteq> [] \<and> hd (capture_amount r) = d"
  by (auto simp: capture_amount_def Let_def split: list.splits)

lemma startsWith_single: "startsWith t [d] = (case t of [] \<Rightarrow> False | x # _ \<Rightarrow> x = d)"
  by (cases t) (auto simp: startsWith_def)

lemma rupee_digit:
  "(startsWith s rupee \<and> (case drop 3 s of [] \<Rightarrow> False | d # _ \<Rightarrow> is_digit d))
     = (\<exists>d. is_digit d \<and> startsWith s (rupee @ [d]))"
proof -
  have l: "length rupee = 3"
    by (simp add: rupee_def)
  show ?thesis
    unfolding startsWith_append l startsWith_single
    by (cases "drop 3 s") auto
qed

lemma match_amount_Cons:
  "match_amount (c # cs) =
     (if \<exists>d. is_digit d \<and> startsWith (c # cs) (rupee @ [d])
      then Some (capture_amount (drop 3 (c # cs)))
      else match_amount cs)"
  by (simp only: match_amount.simps rupee_digit)

lemma match_amount_None:
  "(match_amount s = None) = (\<forall>d. is_digit d \<longrightarrow> \<not> includes_str s (rupee @ [d]))"
proof (induction s)
  case Nil
  show ?case by (simp add: rupee_def)
next
  case (Cons c cs)
  show ?case
    unfolding match_amount_Cons includes_str.simps
    using Cons by auto
qed

lemma match_amount_Some:
  "match_amount s = Some g \<Longrightarrow> includes_str s (rupee @ g) \<and> g \<noteq> [] \<and> is_digit (hd g)"
proof (induction s)
  case Nil
  then show ?case by simp
next
  case (Cons c cs)
  show ?case
  proof (cases "\<exists>d. is_digit d \<and> startsWith (c # cs) (rupee @ [d])")
    case True
    with Cons.prems have g: "g = capture_amount (drop 3 (c # cs))"
      unfolding match_amount_Cons by simp
    have l: "length rupee = 3"
      by (simp add: rupee_def)
    from True obtain d where d: "is_digit d" "startsWith (c # cs) rupee"
        "startsWith (drop 3 (c # cs)) [d]"
      unfolding startsWith_append l by blast
    then obtain r' where r': "drop 3 (c # cs) = d # r'"
      unfolding startsWith_single by (cases "drop 3 (c # cs)") auto
    have "startsWith (c # cs) (rupee @ g)"
      unfolding startsWith_append l g
      using d(2) startsWith_capture_amount by blast
    then have "includes_str (c # cs) (rupee @ g)"
      by (rule startsWith_includes)
    with capture_amount_digit [OF r' d(1)] g d(1) show ?thesis
      by simp
  next
    case False
    with Cons.prems have "match_amount cs = Some g"
      unfolding match_amount_Cons by simp
    with Cons.IH show ?thesis
      by simp
  qed
qed

text \<open>
  C9. A final response whose text contains \<^verbatim>\<open>Your order has been initialized\<close>, and
  neither of the two session-initialisation phrases, passes one updater to \<^verbatim>\<open>setChats\<close>.
  Whenever React runs it, it takes the thinking and tool-executing entries of the request
  identity of that moment out of the transcript of the handler's session and appends
  exactly two entries: the bot text with the response text, then the payment entry in
  \<^verbatim>\<open>INR\<close> whose amount is the number captured after the leftmost rupee sign that a digit
  follows, and 0 when no rupee sign followed by a digit occurs in the text. So the render
  that follows the handler does this with the identity of the open request.
\<close>

theorem payment_response_appends_two_entries:
  assumes "includes_str content ''Your order has been initialized''"
    and "\<not> includes_str content ''initialized a new shopping session''"
    and "\<not> includes_str content ''Session Ready''"
  shows "\<exists>amount u.
           pending (handleResponse now cl content sid data ctx st) = pending st @ [u]
         \<and> chats (handleResponse now cl content sid data ctx st) = chats st
         \<and> (\<forall>cur t prev.
               u cur t prev =
                 map (\<lambda>c. if chat_id c \<noteq> cl_activeChatId cl then c
                          else c\<lparr>messages :=
                                 filter (\<lambda>m. \<not> swept cur m) (messages c)
                                 @ [\<lparr>msg_id = ''response_'' @ string_of_nat t,
                                     msg_type = Bot,
                                     body = Content content,
                                     streamId = None\<rparr>,
                                    \<lparr>msg_id = ''payment_'' @ string_of_nat (now 1),
                                     msg_type = Bot_payment_initiated,
                                     body = Payment (''order_'' @ string_of_nat (now 0)) amount
                                              ''INR'',
                                     streamId = None\<rparr>]\<rparr>)
                   prev)
         \<and> chats (render rnow (handleResponse now cl content sid data ctx st)) =
             map (\<lambda>c. if chat_id c \<noteq> cl_activeChatId cl then c
                      else c\<lparr>messages :=
                             filter (\<lambda>m. \<not> swept (currentStreamIdRef st) m) (messages c)
                             @ [\<lparr>msg_id = ''response_''
                                          @ string_of_nat (rnow (length (pending st))),
                                 msg_type = Bot,
                                 body = Content content,
                                 streamId = None\<rparr>,
                                \<lparr>msg_id = ''payment_'' @ string_of_nat (now 1),
                                 msg_type = Bot_payment_initiated,
                                 body = Payment (''order_'' @ string_of_nat (now 0)) amount ''INR'',
                                 streamId = None\<rparr>]\<rparr>)
               (chats (render rnow st))
         \<and> ((\<forall>d. is_digit d \<longrightarrow> \<not> includes_str content (rupee @ [d])) \<longrightarrow> amount = 0)
         \<and> ((\<exists>d. is_digit d \<and> includes_str content (rupee @ [d])) \<longrightarrow>
              (\<exists>g. match_amount content = Some g \<and> amount = parseFloat g
                   \<and> includes_str content (rupee @ g) \<and> g \<noteq> [] \<and> is_digit (hd g)))"
proof -
  let ?amount = "case match_amount content of None \<Rightarrow> 0 | Some g \<Rightarrow> parseFloat g"
  let ?pay = "\<lparr>msg_id = ''payment_'' @ string_of_nat (now 1),
               msg_type = Bot_payment_initiated,
               body = Payment (''order_'' @ string_of_nat (now 0)) ?amount ''INR'',
               streamId = None\<rparr>"
  let ?u = "handleResponse_payment_updater (cl_activeChatId cl) content ?pay"
  let ?st' = "handleResponse now cl content sid data ctx st"
  have p: "pending ?st' = pending st @ [?u]"
    using assms by (simp add: handleResponse_def Let_def)
  have c: "chats ?st' = chats st"
    using assms by (simp add: handleResponse_def Let_def)
  have cur: "currentStreamIdRef ?st' = currentStreamIdRef st"
    using assms by (simp add: handleResponse_def Let_def)
  have u: "?u cur t prev =
             map (\<lambda>c. if chat_id c \<noteq> cl_activeChatId cl then c
                      else c\<lparr>messages :=
                             filter (\<lambda>m. \<not> swept cur m) (messages c)
                             @ [\<lparr>msg_id = ''response_'' @ string_of_nat t,
                                 msg_type = Bot,
                                 body = Content content,
                                 streamId = None\<rparr>,
                                ?pay]\<rparr>)
               prev" for cur t prev
    by (simp add: handleResponse_payment_updater_def swept_def)
  have r: "chats (render rnow ?st') =
             ?u (currentStreamIdRef st) (rnow (length (pending st))) (chats (render rnow st))"
    using render_after [OF p cur c, of rnow] by simp
  have 2: "(\<forall>d. is_digit d \<longrightarrow> \<not> includes_str content (rupee @ [d])) \<longrightarrow> ?amount = 0"
  proof
    assume "\<forall>d. is_digit d \<longrightarrow> \<not> includes_str content (rupee @ [d])"
    then have "match_amount content = None"
      by (simp only: match_amount_None)
    then show "?amount = 0"
      by simp
  qed
  have 3: "(\<exists>d. is_digit d \<and> includes_str content (rupee @ [d])) \<longrightarrow>
              (\<exists>g. match_amount content = Some g \<and> ?amount = parseFloat g
                   \<and> includes_str content (rupee @ g) \<and> g \<noteq> [] \<and> is_digit (hd g))"
  proof
    assume "\<exists>d. is_digit d \<and> includes_str content (rupee @ [d])"
    then have "match_amount content \<noteq> None"
      using match_amount_None [of content] by blast
    then obtain g where g: "match_amount content = Some g"
      by blast
    with match_amount_Some [OF g] show "\<exists>g. match_amount content = Some g \<and> ?amount = parseFloat g
                   \<and> includes_str content (rupee @ g) \<and> g \<noteq> [] \<and> is_digit (hd g)"
      by simp
  qed
  show ?thesis
  proof (rule exI [of _ ?amount], rule exI [of _ ?u], intro conjI allI)
    show "pending ?st' = pending st @ [?u]" by (rule p)
    show "chats ?st' = chats st" by (rule c)
    show "?u cur t prev =
             map (\<lambda>c. if chat_id c \<noteq> cl_activeChatId cl then c
                      else c\<lparr>messages :=
                             filter (\<lambda>m. \<not> swept cur m) (messages c)
                             @ [\<lparr>msg_id = ''response_'' @ string_of_nat t,
                                 msg_type = Bot,
                                 body = Content content,
                                 streamId = None\<rparr>,
                                ?pay]\<rparr>)
               prev" for cur t prev
      by (rule u)
    show "chats (render rnow ?st') =
             map (\<lambda>c. if chat_id c \<noteq> cl_activeChatId cl then c
                      else c\<lparr>messages :=
                             filter (\<lambda>m. \<not> swept (currentStreamIdRef st) m) (messages c)
                             @ [\<lparr>msg_id = ''response_''
                                          @ string_of_nat (rnow (length (pending st))),
                                 msg_type = Bot,
                                 body = Content content,
                                 streamId = None\<rparr>,
                                ?pay]\<rparr>)
               (chats (render rnow st))"
      unfolding r by (rule u)
    show "(\<forall>d. is_digit d \<longrightarrow> \<not> includes_str content (rupee @ [d])) \<longrightarrow> ?amount = 0"
      by (rule 2)
    show "(\<exists>d. is_digit d \<and> includes_str content (rupee @ [d])) \<longrightarrow>
              (\<exists>g. match_amount content = Some g \<and> ?amount = parseFloat g
                   \<and> includes_str content (rupee @ g) \<and> g \<noteq> [] \<and> is_digit (hd g))"
      by (rule 3)
  qed
qed

theorem payment_response_appends_two_entries_witness:
  "includes_str payment_text ''Your order has been initialized''
   \<and> \<not> includes_str payment_text ''initialized a new shopping session''
   \<and> \<not> includes_str payment_text ''Session Ready''
   \<and> messages (chats (render (\<lambda>k. 2500)
        (handleResponse (sample_clock 5) (closure_of two_chats)
           payment_text None None None two_chats)) ! 0)
     = [\<lparr>msg_id = ''m1'', msg_type = User, body = Content ''rice'', streamId = None\<rparr>,
        \<lparr>msg_id = ''response_2500'', msg_type = Bot, body = Content payment_text,
         streamId = None\<rparr>,
        \<lparr>msg_id = ''payment_1005'', msg_type = Bot_payment_initiated,
         body = Payment ''order_1005'' (999 / 2) ''INR'', streamId = None\<rparr>]"
proof -
  have a1: "includes_str payment_text ''Your order has been initialized''"
    by (simp add: payment_text_def startsWith_def rupee_def)
  have a2: "\<not> includes_str payment_text ''initialized a new shopping session''"
    by (simp add: payment_text_def startsWith_def rupee_def)
  have a3: "\<not> includes_str payment_text ''Session Ready''"
    by (simp add: payment_text_def startsWith_def rupee_def)
  have m: "match_amount payment_text = Some ''499.50''"
    by (simp add: payment_text_def rupee_def startsWith_def capture_amount_def is_digit_def)
  have d: "\<exists>d. is_digit d \<and> includes_str payment_text (rupee @ [d])"
    by (rule exI [of _ "CHR ''4''"])
       (simp add: payment_text_def is_digit_def rupee_def startsWith_def)
  from payment_response_appends_two_entries
         [OF a1 a2 a3, where now = "sample_clock 5" and cl = "closure_of two_chats"
            and sid = None and data = None and ctx = None and st = two_chats
            and rnow = "\<lambda>k. 2500"]
  obtain amount where
    eq: "chats (render (\<lambda>k. 2500)
                  (handleResponse (sample_clock 5) (closure_of two_chats) payment_text
                     None None None two_chats)) =
           map (\<lambda>c. if chat_id c \<noteq> cl_activeChatId (closure_of two_chats) then c
                    else c\<lparr>messages :=
                           filter (\<lambda>m. \<not> swept (currentStreamIdRef two_chats) m) (messages c)
                           @ [\<lparr>msg_id = ''response_''
                                        @ string_of_nat (2500 :: nat),
                               msg_type = Bot,
                               body = Content payment_text,
                               streamId = None\<rparr>,
                              \<lparr>msg_id = ''payment_'' @ string_of_nat (sample_clock 5 1),
                               msg_type = Bot_payment_initiated,
                               body = Payment (''order_'' @ string_of_nat (sample_clock 5 0))
                                        amount ''INR'',
                               streamId = None\<rparr>]\<rparr>)
             (chats (render (\<lambda>k. 2500) two_chats))"
    and am: "(\<exists>d. is_digit d \<and> includes_str payment_text (rupee @ [d])) \<longrightarrow>
              (\<exists>g. match_amount payment_text = Some g \<and> amount = parseFloat g
                   \<and> includes_str payment_text (rupee @ g) \<and> g \<noteq> [] \<and> is_digit (hd g))"
    by blast
  from am d obtain g where "match_amount payment_text = Some g" "amount = parseFloat g"
    by blast
  with m have "amount = parseFloat ''499.50''"
    by simp
  then have amount: "amount = 999 / 2"
    by (simp add: parseFloat_def is_digit_def digits_value_def)
  have "messages (chats (render (\<lambda>k. 2500)
                  (handleResponse (sample_clock 5) (closure_of two_chats) payment_text
                     None None None two_chats)) ! 0)
     = [\<lparr>msg_id = ''m1'', msg_type = User, body = Content ''rice'', streamId = None\<rparr>,
        \<lparr>msg_id = ''response_2500'', msg_type = Bot, body = Content payment_text,
         streamId = None\<rparr>,
        \<lparr>msg_id = ''payment_1005'', msg_type = Bot_payment_initiated,
         body = Payment ''order_1005'' (999 / 2) ''INR'', streamId = None\<rparr>]"
    unfolding eq amount
    by (simp add: two_chats_def closure_of_def swept_def isCurrentStream_def sample_clock_def
          string_of_nat.simps)
  with a1 a2 a3 show ?thesis
    by (intro conjI)
qed

theorem payment_phrase_suppressed_counterexample:
  "includes_str ''Session Ready. Your order has been initialized''
     ''Your order has been initialized''
   \<and> messages (chats (render (\<lambda>k. 2500)
        (handleResponse (sample_clock 5) (closure_of two_chats)
           ''Session Ready. Your order has been initialized'' None None None two_chats)) ! 0)
     = [\<lparr>msg_id = ''m1'', msg_type = User, body = Content ''rice'', streamId = None\<rparr>]"
proof -
  have i0: "\<not> includes_str ''Session Ready. Your order has been initialized''
                ''initialized a new shopping session''"
    by (simp add: startsWith_def)
  have i1: "includes_str ''Session Ready. Your order has been initialized'' ''Session Ready''"
    by (simp add: startsWith_def)
  have i2: "includes_str ''Session Ready. Your order has been initialized''
              ''Your order has been initialized''"
    by (simp add: startsWith_def)
  have h: "handleResponse (sample_clock 5) (closure_of two_chats)
             ''Session Ready. Your order has been initialized'' None None None two_chats
           = removeThinkingMessages ''c1'' two_chats"
    unfolding handleResponse_def Let_def
    by (simp only: i0 i1 simp_thms if_True updateSessionId_def option.case closure_of_def
          closure.simps)
       (simp add: two_chats_def)
  have "messages (chats (render (\<lambda>k. 2500) (removeThinkingMessages ''c1'' two_chats)) ! 0)
     = [\<lparr>msg_id = ''m1'', msg_type = User, body = Content ''rice'', streamId = None\<rparr>]"
    by (simp add: removeThinkingMessages_updater_def two_chats_def isCurrentStream_def)
  with i2 show ?thesis
    unfolding h by (rule conjI)
qed
section \<open>Cancellation and the sweep\<close>

lemma await_read_awaiting:
  "await_read parse refs b rs = (effs, Awaiting b', refs') \<Longrightarrow>
     OnComplete \<notin> set (callbacks effs) \<and> (\<forall>e. OnError e \<notin> set (callbacks effs)) \<and> refs' = refs"
proof (induction rs arbitrary: b effs)
  case Nil
  then show ?case by simp
next
  case (Cons r rs)
  show ?case
  proof (cases r)
    case (Read_value chunk)
    let ?lines = "split_newline (b @ chunk)"
    let ?p = "process_lines parse (butlast ?lines)"
    let ?l = "await_read parse refs (last ?lines) rs"
    from Cons.prems Read_value have np: "\<not> snd ?p" and st: "isStreamingRef refs"
      by (auto simp: Let_def split: if_splits)
    with Cons.prems Read_value have effs: "effs = fst ?p @ fst ?l"
      and l: "snd ?l = (Awaiting b', refs')"
      by (auto simp: Let_def)
    from l have "?l = (fst ?l, Awaiting b', refs')"
      by (metis prod.collapse)
    from Cons.IH [OF this] have ih: "OnComplete \<notin> set (callbacks (fst ?l))"
      "\<forall>e. OnError e \<notin> set (callbacks (fst ?l))" "refs' = refs"
      by simp_all
    have "count_list (callbacks (fst ?p)) OnComplete = 0"
      using np process_lines_complete_count [of parse "butlast ?lines"] by simp
    then have "OnComplete \<notin> set (callbacks (fst ?p))"
      by (simp add: count_list_0_iff)
    with ih process_lines_no_error [of _ parse "butlast ?lines"] show ?thesis
      by (simp add: effs)
  next
    case Read_done
    with Cons.prems show ?thesis by simp
  next
    case (Read_rejects e)
    with Cons.prems show ?thesis by simp
  qed
qed

lemma fetchSettled_open:
  assumes "fetchSettled parse f refs = (effs, refs', Some buffer)"
  shows "OnComplete \<notin> set (callbacks effs) \<and> (\<forall>e. OnError e \<notin> set (callbacks effs))"
proof -
  obtain ok status body where f: "f = Fetch_response ok status body"
    using assms by (cases f) (auto simp: fetchSettled_def try_stream_def Let_def)
  from assms f have ok: ok
    by (cases ok) (auto simp: fetchSettled_def try_stream_def Let_def)
  from assms f ok obtain reads where body: "body = Some reads"
    by (cases body) (auto simp: fetchSettled_def try_stream_def Let_def)
  from assms f ok body have st: "isStreamingRef refs"
    by (cases "isStreamingRef refs")
       (auto simp: fetchSettled_def try_stream_def read_loop_def Let_def)
  let ?l = "await_read parse refs [] reads"
  from assms f ok body st have a: "fst (snd ?l) = Awaiting buffer" and e: "effs = fst ?l"
    by (auto simp: fetchSettled_reads Let_def split: loop_end.splits)
  from a have "?l = (fst ?l, Awaiting buffer, snd (snd ?l))"
    by (metis prod.collapse)
  from await_read_awaiting [OF this] show ?thesis
    by (simp add: e)
qed

lemma resumeStream_open:
  assumes "resumeStream parse refs b reads = (effs, refs', Some buffer)"
  shows "OnComplete \<notin> set (callbacks effs) \<and> (\<forall>e. OnError e \<notin> set (callbacks effs))"
proof -
  let ?l = "await_read parse refs b reads"
  from assms have a: "fst (snd ?l) = Awaiting buffer" and e: "effs = fst ?l"
    by (auto simp: resumeStream_def Let_def split: loop_end.splits)
  from a have "?l = (fst ?l, Awaiting buffer, snd (snd ?l))"
    by (metis prod.collapse)
  from await_read_awaiting [OF this] show ?thesis
    by (simp add: e)
qed

lemma resumeStream_abort:
  "resumeStream parse refs buffer [Read_rejects (Error_instance ''AbortError'' m)]
     = ([], \<lparr>abortControllerRef = None, isStreamingRef = False\<rparr>, None)"
  by (simp add: resumeStream_def)

lemma fetchSettled_abort:
  "fetchSettled parse (Fetch_rejects (Error_instance ''AbortError'' m)) refs
     = ([], \<lparr>abortControllerRef = None, isStreamingRef = False\<rparr>, None)"
  by (simp add: fetchSettled_def try_stream_def)

text \<open>
  C3. When a stream completes (\<^verbatim>\<open>onComplete\<close>) and when it fails (\<^verbatim>\<open>onError\<close>), the
  handler leaves the session list as it is and passes the sweep to \<^verbatim>\<open>setChats\<close>, on
  failure followed by the updater of the error entry when the transcript it closed over
  has entries. Whenever React runs what the handler has passed, the thinking and
  tool-executing entries that the request identity of that moment owns are taken out of
  the transcript of the handler's session; the result is the transcript filtered in this
  way, on failure with the error entry at its end. So the render that follows the handler
  sweeps the entries of the open request. A cancelled request invokes no callback, whether
  the abort meets it in the fetch or in a read, so no sweep takes place for it.
\<close>

theorem sweep_at_completion_and_error:
  "chats (handleStreamComplete cl st) = chats st
   \<and> chats (handleStreamError now cl e st) = chats st
   \<and> (\<forall>cur rnow prev.
         run_updaters cur rnow (queued st (handleStreamComplete cl st)) prev
           = map (\<lambda>c. if chat_id c \<noteq> cl_activeChatId cl then c
                      else c\<lparr>messages := filter (\<lambda>m. \<not> swept cur m) (messages c)\<rparr>) prev)
   \<and> (\<forall>cur rnow prev.
         run_updaters cur rnow (queued st (handleStreamError now cl e st)) prev
           = map (\<lambda>c. if chat_id c \<noteq> cl_activeChatId cl then c
                      else c\<lparr>messages :=
                             filter (\<lambda>m. \<not> swept cur m) (messages c)
                             @ (if (case List.find (\<lambda>c. chat_id c = cl_activeChatId cl)
                                           (cl_chats cl) of
                                      None \<Rightarrow> False
                                    | Some currentChat \<Rightarrow> messages currentChat \<noteq> [])
                                then [\<lparr>msg_id = ''e'' @ string_of_nat (now 0),
                               msg_type = Bot_error,
                               body = Error_data
                                 \<lparr>err_success = False,
                                  err_error_type = ''network_error'',
                                  err_recovery_action = Some ''retry_operation'',
                                  err_retry_possible = Some True,
                                  err_message =
                                    ''Sorry, I encountered an error. Please try again.''\<rparr>,
                               streamId = None\<rparr>]
                                else [])\<rparr>) prev)
   \<and> chats (render rnow (handleStreamComplete cl st))
       = map (\<lambda>c. if chat_id c \<noteq> cl_activeChatId cl then c
                  else c\<lparr>messages :=
                         filter (\<lambda>m. \<not> swept (currentStreamIdRef st) m) (messages c)\<rparr>)
           (chats (render rnow st))
   \<and> chats (render rnow (handleStreamError now cl e st))
       = map (\<lambda>c. if chat_id c \<noteq> cl_activeChatId cl then c
                  else c\<lparr>messages :=
                         filter (\<lambda>m. \<not> swept (currentStreamIdRef st) m) (messages c)
                         @ (if (case List.find (\<lambda>c. chat_id c = cl_activeChatId cl)
                                       (cl_chats cl) of
                                  None \<Rightarrow> False
                                | Some currentChat \<Rightarrow> messages currentChat \<noteq> [])
                            then [\<lparr>msg_id = ''e'' @ string_of_nat (now 0),
                               msg_type = Bot_error,
                               body = Error_data
                                 \<lparr>err_success = False,
                                  err_error_type = ''network_error'',
                                  err_recovery_action = Some ''retry_operation'',
                                  err_retry_possible = Some True,
                                  err_message =
                                    ''Sorry, I encountered an error. Please try again.''\<rparr>,
                               streamId = None\<rparr>]
                            else [])\<rparr>)
           (chats (render rnow st))
   \<and> callbacks (fst (resumeStream parse refs buffer
                        [Read_rejects (Error_instance ''AbortError'' reason)])) = []
   \<and> callbacks (fst (fetchSettled parse
                        (Fetch_rejects (Error_instance ''AbortError'' reason)) refs)) = []"
proof -
  let ?a = "cl_activeChatId cl"
  let ?should = "case List.find (\<lambda>c. chat_id c = ?a) (cl_chats cl) of
                   None \<Rightarrow> False | Some currentChat \<Rightarrow> messages currentChat \<noteq> []"
  let ?err = "\<lparr>msg_id = ''e'' @ string_of_nat (now 0),
                               msg_type = Bot_error,
                               body = Error_data
                                 \<lparr>err_success = False,
                                  err_error_type = ''network_error'',
                                  err_recovery_action = Some ''retry_operation'',
                                  err_retry_possible = Some True,
                                  err_message =
                                    ''Sorry, I encountered an error. Please try again.''\<rparr>,
                               streamId = None\<rparr>"
  let ?C = "handleStreamComplete cl st"
  let ?E = "handleStreamError now cl e st"
  let ?sweep = "\<lambda>cur. map (\<lambda>c. if chat_id c \<noteq> ?a then c
                      else c\<lparr>messages := filter (\<lambda>m. \<not> swept cur m) (messages c)\<rparr>)"
  let ?fail = "\<lambda>cur. map (\<lambda>c. if chat_id c \<noteq> ?a then c
                      else c\<lparr>messages := filter (\<lambda>m. \<not> swept cur m) (messages c)
                                            @ (if ?should then [?err] else [])\<rparr>)"
  have pC: "pending ?C = pending st @ [removeThinkingMessages_updater ?a]"
    by (simp add: handleStreamComplete_def)
  have pE: "pending ?E = pending st @ (removeThinkingMessages_updater ?a
                # (if ?should then [append_updater ?a ?err] else []))"
    by (simp add: handleStreamError_def Let_def)
  have qC: "queued st ?C = [removeThinkingMessages_updater ?a]"
    using pC by (rule queued_append)
  have qE: "queued st ?E = removeThinkingMessages_updater ?a
                # (if ?should then [append_updater ?a ?err] else [])"
    using pE by (rule queued_append)
  have cC: "chats ?C = chats st" and curC: "currentStreamIdRef ?C = currentStreamIdRef st"
    by (simp_all add: handleStreamComplete_def)
  have cE: "chats ?E = chats st" and curE: "currentStreamIdRef ?E = currentStreamIdRef st"
    by (simp_all add: handleStreamError_def Let_def)
  have uC: "run_updaters cur rnow (queued st ?C) prev = ?sweep cur prev" for cur rnow prev
    by (simp add: qC removeThinkingMessages_updater_def swept_def)
  have uE: "run_updaters cur rnow (queued st ?E) prev = ?fail cur prev" for cur rnow prev
    by (simp add: qE removeThinkingMessages_updater_def append_updater_def swept_def comp_def
          cong: map_cong)
  have pC': "pending ?C = pending st @ queued st ?C"
    using pC qC by simp
  have pE': "pending ?E = pending st @ queued st ?E"
    using pE qE by simp
  have rC: "chats (render rnow ?C) = ?sweep (currentStreamIdRef st) (chats (render rnow st))"
    using render_after [OF pC' curC cC, of rnow] by (simp only: uC)
  have rE: "chats (render rnow ?E) = ?fail (currentStreamIdRef st) (chats (render rnow st))"
    using render_after [OF pE' curE cE, of rnow] by (simp only: uE)
  have 3: "callbacks (fst (resumeStream parse refs buffer
                            [Read_rejects (Error_instance ''AbortError'' reason)])) = []"
    by (simp add: resumeStream_abort)
  have 4: "callbacks (fst (fetchSettled parse
                            (Fetch_rejects (Error_instance ''AbortError'' reason)) refs)) = []"
    by (simp add: fetchSettled_abort)
  from cC cE uC uE rC rE 3 4 show ?thesis
    by (intro conjI allI)
qed

theorem sweep_at_completion_and_error_witness:
  "messages (chats (render (\<lambda>k. 2500) (handleStreamComplete (closure_of two_chats) two_chats)) ! 0)
     = [\<lparr>msg_id = ''m1'', msg_type = User, body = Content ''rice'', streamId = None\<rparr>]"
proof -
  have "chats (render (\<lambda>k. 2500) (handleStreamComplete (closure_of two_chats) two_chats))
       = map (\<lambda>c. if chat_id c \<noteq> cl_activeChatId (closure_of two_chats) then c
                  else c\<lparr>messages :=
                         filter (\<lambda>m. \<not> swept (currentStreamIdRef two_chats) m) (messages c)\<rparr>)
           (chats (render (\<lambda>k. 2500) two_chats))"
    using sweep_at_completion_and_error
            [where cl = "closure_of two_chats" and st = two_chats and rnow = "\<lambda>k. 2500",
             THEN conjunct2, THEN conjunct2, THEN conjunct2, THEN conjunct2, THEN conjunct1]
    by this
  then show ?thesis
    by (simp add: two_chats_def closure_of_def swept_def isCurrentStream_def)
qed

text \<open>
  The first request of the example run is cancelled by the send of the second: its call
  ends without a callback, and its thinking entry is in the transcript after the next
  render. A request that completes leaves the conversation chunk it has shown. And when
  a request is sent between the completion of the first request and the next render, the
  sweep runs with the identity of the new request and leaves the thinking entry of the
  first.
\<close>

theorem transient_entries_left_counterexample:
  "snd request2_sent = [Abort 11, Fetch ''dal'' None 12]
   \<and> snd request1_aborted = ([], None)
   \<and> messages (chats (fst after_abort) ! 0)
     = [\<lparr>msg_id = ''m1000'', msg_type = User, body = Content ''rice'', streamId = None\<rparr>,
        \<lparr>msg_id = ''thinking1003'', msg_type = Bot_thinking, body = Content ''Searching'',
         streamId = Some ''stream_1000_ab''\<rparr>,
        \<lparr>msg_id = ''m2000'', msg_type = User, body = Content ''dal'', streamId = None\<rparr>]
   \<and> callbacks (fst (snd chunk_request))
     = [OnConversationChunk ''Looking'' None None, OnComplete]
   \<and> messages (chats (fst (fst chunk_request)) ! 0)
     = [\<lparr>msg_id = ''m1000'', msg_type = User, body = Content ''rice'', streamId = None\<rparr>,
        \<lparr>msg_id = ''chunk1003'', msg_type = Bot_conversation_chunk,
         body = Chunk ''Looking'' None, streamId = Some ''stream_1000_ab''\<rparr>]
   \<and> messages (chats send_after_complete ! 0)
     = [\<lparr>msg_id = ''m1000'', msg_type = User, body = Content ''rice'', streamId = None\<rparr>,
        \<lparr>msg_id = ''thinking1003'', msg_type = Bot_thinking, body = Content ''Searching'',
         streamId = Some ''stream_1000_ab''\<rparr>,
        \<lparr>msg_id = ''m2000'', msg_type = User, body = Content ''dal'', streamId = None\<rparr>]"
proof -
  have d: "resumeStream sample_parse \<lparr>abortControllerRef = Some 11, isStreamingRef = True\<rparr> []
             [Read_value (wire [''data: [DONE]''])]
           = ([Call OnComplete], \<lparr>abortControllerRef = None, isStreamingRef = False\<rparr>, None)"
    by (simp add: resumeStream_def frame_simps Let_def)
  have s: "messages (chats send_after_complete ! 0)
     = [\<lparr>msg_id = ''m1000'', msg_type = User, body = Content ''rice'', streamId = None\<rparr>,
        \<lparr>msg_id = ''thinking1003'', msg_type = Bot_thinking, body = Content ''Searching'',
         streamId = Some ''stream_1000_ab''\<rparr>,
        \<lparr>msg_id = ''m2000'', msg_type = User, body = Content ''dal'', streamId = None\<rparr>]"
    unfolding send_after_complete_def request1_value resumeRequest_def
    by (simp add: d initial_state_def page_simps)
  have h: "fetchSettled sample_parse
             (Fetch_response True 200
                (Some [Read_value
                   (wire [''data: {\"type\":\"conversation_chunk\",\"message\":\"Looking\"}'',
                          ''data: [DONE]''])]))
             \<lparr>abortControllerRef = Some 11, isStreamingRef = True\<rparr>
           = ([JSON_parse ''{\"type\":\"conversation_chunk\",\"message\":\"Looking\"}'',
               Call (OnConversationChunk ''Looking'' None None), Call OnComplete],
              \<lparr>abortControllerRef = None, isStreamingRef = False\<rparr>, None)"
    by (simp add: fetchSettled_reads frame_simps Let_def)
  have c: "chunk_request =
     ((\<lparr>chats = [\<lparr>chat_id = ''c1'', title = ''New Chat'',
                   messages = [\<lparr>msg_id = ''m1000'', msg_type = User, body = Content ''rice'',
                                streamId = None\<rparr>,
                               \<lparr>msg_id = ''chunk1003'', msg_type = Bot_conversation_chunk,
                                body = Chunk ''Looking'' None,
                                streamId = Some ''stream_1000_ab''\<rparr>]\<rparr>],
        activeChatId = ''c1'', isLoading = False, sessionId = None,
        cart_itemCount = 0, cart_total = 0, pending = [],
        currentStreamIdRef = Some ''stream_1000_ab''\<rparr>,
       \<lparr>abortControllerRef = None, isStreamingRef = False\<rparr>),
      [Fetch ''rice'' None 11,
       JSON_parse ''{\"type\":\"conversation_chunk\",\"message\":\"Looking\"}'',
       Call (OnConversationChunk ''Looking'' None None), Call OnComplete],
      None)"
    unfolding chunk_request_def request_run_def settleRequest_def
    by (simp add: initial_state_def initial_refs_def h page_simps sample_clock_def)
  show ?thesis
    by (simp add: request2_sent_value after_abort_value c s)
qed

section \<open>A request that is superseded\<close>

lemma session_history:
  assumes "session_updater a u"
  shows "history_updater u"
  unfolding history_updater_def
proof (intro allI)
  fix cur t prev
  have "step_rel a cur prev (u cur t prev)"
    using assms by (simp add: session_updater_def)
  then show "list_all2 (\<lambda>c c'. chat_id c' = chat_id c
                 \<and> keeps_history cur (messages c) (messages c')) prev (u cur t prev)"
    unfolding step_rel_def by (rule list_all2_mono) simp
qed

lemma history_trans:
  fixes xs ys zs :: "chat_session list"
  assumes "list_all2 (\<lambda>c c'. chat_id c' = chat_id c \<and> keeps_history cur (messages c) (messages c'))
             xs ys"
    and "list_all2 (\<lambda>c c'. chat_id c' = chat_id c \<and> keeps_history cur (messages c) (messages c'))
             ys zs"
  shows "list_all2 (\<lambda>c c'. chat_id c' = chat_id c \<and> keeps_history cur (messages c) (messages c'))
             xs zs"
proof (rule list_all2_trans [OF _ assms])
  fix x y z :: chat_session
  assume "chat_id y = chat_id x \<and> keeps_history cur (messages x) (messages y)"
    and "chat_id z = chat_id y \<and> keeps_history cur (messages y) (messages z)"
  then show "chat_id z = chat_id x \<and> keeps_history cur (messages x) (messages z)"
    by (auto intro: keeps_history_trans)
qed

lemma run_updaters_history:
  "\<forall>u \<in> set us. history_updater u \<Longrightarrow>
   list_all2 (\<lambda>c c'. chat_id c' = chat_id c \<and> keeps_history cur (messages c) (messages c'))
     prev (run_updaters cur now us prev)"
proof (induction us arbitrary: now prev)
  case Nil
  show ?case by (simp add: list_all2_same)
next
  case (Cons u us)
  have 1: "list_all2 (\<lambda>c c'. chat_id c' = chat_id c \<and> keeps_history cur (messages c) (messages c'))
             prev (u cur (now 0) prev)"
    using Cons.prems by (simp add: history_updater_def)
  have 2: "list_all2 (\<lambda>c c'. chat_id c' = chat_id c \<and> keeps_history cur (messages c) (messages c'))
             (u cur (now 0) prev)
             (run_updaters cur (\<lambda>k. now (Suc k)) us (u cur (now 0) prev))"
    using Cons.prems by (intro Cons.IH) simp
  from history_trans [OF 1 2] show ?case by simp
qed

lemma do_step_history:
  assumes "\<forall>u \<in> set (pending st). history_updater u"
  shows "(\<forall>u \<in> set (pending (do_step maps s st)). history_updater u)
       \<and> list_all2 (\<lambda>c c'. chat_id c' = chat_id c
                      \<and> keeps_history (currentStreamIdRef st) (messages c) (messages c'))
           (chats st) (chats (do_step maps s st))"
proof (cases s)
  case (Invoke cl now cb)
  obtain us where us: "pending (on_callback maps cl now cb st) = pending st @ us"
    and good: "\<forall>u \<in> set us. session_updater (cl_activeChatId cl) u"
    using on_callback_pending by blast
  from good have "\<forall>u \<in> set us. history_updater u"
    using session_history by blast
  with assms us Invoke show ?thesis
    by (auto simp: list_all2_same)
next
  case (Render now)
  with run_updaters_history [OF assms] show ?thesis
    by simp
qed

lemma run_steps_history:
  assumes "\<forall>u \<in> set (pending st). history_updater u"
  shows "(\<forall>u \<in> set (pending (run_steps maps steps st)). history_updater u)
       \<and> list_all2 (\<lambda>c c'. chat_id c' = chat_id c
                      \<and> keeps_history (currentStreamIdRef st) (messages c) (messages c'))
           (chats st) (chats (run_steps maps steps st))"
  using assms
proof (induction steps arbitrary: st)
  case Nil
  then show ?case by (simp add: run_steps_def list_all2_same)
next
  case (Cons s steps)
  let ?st1 = "do_step maps s st"
  from do_step_history [OF Cons.prems]
  have inv1: "\<forall>u \<in> set (pending ?st1). history_updater u"
    and h1: "list_all2 (\<lambda>c c'. chat_id c' = chat_id c
                      \<and> keeps_history (currentStreamIdRef st) (messages c) (messages c'))
           (chats st) (chats ?st1)"
    by simp_all
  from Cons.IH [OF inv1]
  have inv2: "\<forall>u \<in> set (pending (run_steps maps steps ?st1)). history_updater u"
    and h2: "list_all2 (\<lambda>c c'. chat_id c' = chat_id c
                      \<and> keeps_history (currentStreamIdRef st) (messages c) (messages c'))
           (chats ?st1) (chats (run_steps maps steps ?st1))"
    by simp_all
  have "run_steps maps (s # steps) st = run_steps maps steps ?st1"
    by (simp add: run_steps_def)
  with inv2 history_trans [OF h1 h2] show ?case
    by simp
qed


text \<open>
  The updaters that wait on the page are updaters of the page's own code, and so they keep
  the history: this holds of the page that has just been mounted, and every send, every
  callback and every render keeps it.
\<close>

lemma initial_state_history: "\<forall>u \<in> set (pending initial_state). history_updater u"
  by (simp add: initial_state_def)

lemma sendMessage_history:
  assumes "\<forall>u \<in> set (pending (fst s)). history_updater u"
  shows "\<forall>u \<in> set (pending (fst (fst (sendMessage now rnd ctl cl msg app s)))). history_updater u"
  using assms session_history [OF append_updater_session]
  by (auto simp: sendMessage_def Let_def)

lemma run_callbacks_history:
  assumes "\<forall>u \<in> set (pending st). history_updater u"
  shows "\<forall>u \<in> set (pending (run_callbacks maps cl clock cbs st)). history_updater u"
  using assms
proof (induction cbs arbitrary: clock st)
  case Nil
  then show ?case by simp
next
  case (Cons cb cbs)
  have "\<forall>u \<in> set (pending (on_callback maps cl (clock 0) cb st)). history_updater u"
    using do_step_history [OF Cons.prems, of maps "Invoke cl (clock 0) cb"] by simp
  from Cons.IH [OF this] show ?case by simp
qed

text \<open>
  C2. Let a request be suspended in a read (its last piece, after the fetch or after an
  earlier read, has left it there), let the refs of the hook be as that piece has left
  them, with the controller of this request in \<^verbatim>\<open>abortControllerRef\<close>, and let a second
  request be sent. Then the first call has invoked neither
  \<^verbatim>\<open>onComplete\<close> nor \<^verbatim>\<open>onError\<close> in that piece; the send aborts the controller of the
  first request and only then issues its own fetch; the first call, going on with the
  rejection that the abort causes, invokes no callback at all and leaves the page as it
  is; and whatever callbacks are invoked and whenever React renders after the send, every
  entry of a transcript that the new request identity does not own, the entries of the
  first request among them, is still in the transcript, unchanged and in order.
\<close>

theorem superseded_request_is_cancelled:
  assumes "fetchSettled parse f1 refs0 = (effs1, refs1, Some buffer1)
           \<or> resumeStream parse refs0 buffer0 reads1 = (effs1, refs1, Some buffer1)"
    and "abortControllerRef refs1 = Some c1"
    and "snd s1 = refs1"
    and "\<forall>u \<in> set (pending (fst s1)). history_updater u"
  shows "OnComplete \<notin> set (callbacks effs1)
       \<and> (\<forall>e. OnError e \<notin> set (callbacks effs1))
       \<and> snd (sendMessage now2 rnd2 c2 cl2 msg2 app2 s1)
           = [Abort c1, Fetch msg2 (cl_sessionId cl2) c2]
       \<and> resumeRequest parse maps clock3 cl1 buffer1
            [Read_rejects (Error_instance ''AbortError'' reason)] s
           = ((fst s, \<lparr>abortControllerRef = None, isStreamingRef = False\<rparr>), [], None)
       \<and> list_all2
            (\<lambda>c c'. chat_id c' = chat_id c
                \<and> keeps_history
                    (currentStreamIdRef (fst (fst (sendMessage now2 rnd2 c2 cl2 msg2 app2 s1))))
                    (messages c) (messages c'))
            (chats (fst s1))
            (chats (render rnow
                      (run_steps maps steps
                         (fst (fst (sendMessage now2 rnd2 c2 cl2 msg2 app2 s1))))))"
proof -
  let ?st2 = "fst (fst (sendMessage now2 rnd2 c2 cl2 msg2 app2 s1))"
  let ?st3 = "run_steps maps steps ?st2"
  have quiet: "OnComplete \<notin> set (callbacks effs1)" "\<forall>e. OnError e \<notin> set (callbacks effs1)"
    using assms(1) fetchSettled_open resumeStream_open by blast+
  have head: "snd (sendMessage now2 rnd2 c2 cl2 msg2 app2 s1)
           = [Abort c1, Fetch msg2 (cl_sessionId cl2) c2]"
    using assms(2,3) by (simp add: sendMessage_def startStream_def Let_def)
  have silent: "resumeRequest parse maps clock3 cl1 buffer1
            [Read_rejects (Error_instance ''AbortError'' reason)] s
           = ((fst s, \<lparr>abortControllerRef = None, isStreamingRef = False\<rparr>), [], None)"
    by (simp add: resumeRequest_def resumeStream_abort Let_def)
  have c2: "chats ?st2 = chats (fst s1)"
    by (simp add: sendMessage_def Let_def)
  have inv2: "\<forall>u \<in> set (pending ?st2). history_updater u"
    using assms(4) session_history [OF append_updater_session]
    by (auto simp: sendMessage_def Let_def)
  from run_steps_history [OF inv2, of maps steps]
  have inv3: "\<forall>u \<in> set (pending ?st3). history_updater u"
    and h3: "list_all2 (\<lambda>c c'. chat_id c' = chat_id c
                      \<and> keeps_history (currentStreamIdRef ?st2) (messages c) (messages c'))
           (chats ?st2) (chats ?st3)"
    by simp_all
  have h4: "list_all2 (\<lambda>c c'. chat_id c' = chat_id c
                      \<and> keeps_history (currentStreamIdRef ?st2) (messages c) (messages c'))
           (chats ?st3) (chats (render rnow ?st3))"
    using run_updaters_history [OF inv3, of "currentStreamIdRef ?st2" "chats ?st3" rnow]
    by simp
  from history_trans [OF h3 h4] have hist: "list_all2 (\<lambda>c c'. chat_id c' = chat_id c
                      \<and> keeps_history (currentStreamIdRef ?st2) (messages c) (messages c'))
           (chats (fst s1)) (chats (render rnow ?st3))"
    by (simp only: c2)
  from quiet head silent hist show ?thesis
    by (intro conjI)
qed

theorem superseded_request_is_cancelled_witness:
  "abortControllerRef (snd (fst request1)) = Some 11
   \<and> snd (snd request1) = Some []
   \<and> OnComplete \<notin> set (callbacks (fst (snd request1)))
   \<and> snd request2_sent = [Abort 11, Fetch ''dal'' None 12]
   \<and> snd request1_aborted = ([], None)"
proof -
  have 1: "fetchSettled sample_parse
             (Fetch_response True 200
                (Some [Read_value (wire [''data: {\"type\":\"thinking\",\"message\":\"Searching\"}''])]))
             \<lparr>abortControllerRef = Some 11, isStreamingRef = True\<rparr>
           = ([JSON_parse ''{\"type\":\"thinking\",\"message\":\"Searching\"}'',
               Call (OnThinking ''Searching'' None)],
              \<lparr>abortControllerRef = Some 11, isStreamingRef = True\<rparr>, Some [])
         \<or> resumeStream sample_parse \<lparr>abortControllerRef = Some 11, isStreamingRef = True\<rparr> [] []
           = ([JSON_parse ''{\"type\":\"thinking\",\"message\":\"Searching\"}'',
               Call (OnThinking ''Searching'' None)],
              \<lparr>abortControllerRef = Some 11, isStreamingRef = True\<rparr>, Some [])"
    using settle_searching by (rule disjI1)
  have 2: "abortControllerRef \<lparr>abortControllerRef = Some 11, isStreamingRef = True\<rparr> = Some 11"
    by simp
  have 3: "snd (fst request1) = \<lparr>abortControllerRef = Some 11, isStreamingRef = True\<rparr>"
    by (simp add: request1_value)
  have 4: "\<forall>u \<in> set (pending (fst (fst request1))). history_updater u"
    by (simp add: request1_value)
  note c = superseded_request_is_cancelled
             [OF 1 2 3 4, where ?now2.0 = "\<lambda>i. 2000" and ?rnd2.0 = "''cd''" and ?c2.0 = 12
                and ?cl2.0 = "closure_of (fst (fst request1))" and ?msg2.0 = "''dal''"
                and ?app2.0 = True and maps = sample_maps and ?clock3.0 = "\<lambda>k i. 2100 + k"
                and ?cl1.0 = "closure_of initial_state"
                and reason = "''The user aborted a request.''" and s = "fst request2_sent"]
  from c have "OnComplete \<notin> set (callbacks
                 [JSON_parse ''{\"type\":\"thinking\",\"message\":\"Searching\"}'',
                  Call (OnThinking ''Searching'' None)])"
    by (rule conjunct1)
  then have a: "OnComplete \<notin> set (callbacks (fst (snd request1)))"
    by (simp add: request1_value)
  from c [THEN conjunct2, THEN conjunct2, THEN conjunct1]
  have "snd (sendMessage (\<lambda>i. 2000) ''cd'' 12 (closure_of (fst (fst request1))) ''dal''
                     True (fst request1))
                 = [Abort 11, Fetch ''dal'' (cl_sessionId (closure_of (fst (fst request1)))) 12]"
    by this
  then have b: "snd request2_sent = [Abort 11, Fetch ''dal'' None 12]"
    unfolding request2_sent_def by (simp add: request1_value closure_of_def)
  from c [THEN conjunct2, THEN conjunct2, THEN conjunct2, THEN conjunct1]
  have "resumeRequest sample_parse sample_maps (\<lambda>k i. 2100 + k) (closure_of initial_state)
                 [] [Read_rejects (Error_instance ''AbortError'' ''The user aborted a request.'')]
                 (fst request2_sent)
               = ((fst (fst request2_sent), \<lparr>abortControllerRef = None, isStreamingRef = False\<rparr>),
                  [], None)"
    by this
  then have d: "snd request1_aborted = ([], None)"
    unfolding request1_aborted_def by simp
  have e: "snd (snd request1) = Some []"
    by (simp add: request1_value)
  have f: "abortControllerRef (snd (fst request1)) = Some 11"
    by (simp add: request1_value)
  from f e a b d show ?thesis
    by (intro conjI)
qed

text \<open>
  The example run: the hook holds one controller, and the \<^verbatim>\<open>finally\<close> clause of a call
  that ends clears it, whichever call it belongs to. When the first call has ended on its
  abort, the controller of the second request is gone from the hook, so the third send
  aborts nothing. The second request then reads its stream, a fourth request is sent
  while that stream is open and aborts the controller of the third only, and the second
  request completes afterwards. The thinking entry of the first request is in the
  transcript to the end.
\<close>

theorem superseded_request_counterexample:
  "snd (snd request2_open) = Some []
   \<and> snd request4_sent = [Abort 13, Fetch ''urad'' None 14]
   \<and> callbacks (fst (snd request2_complete)) = [OnComplete]
   \<and> messages (chats (fst after_complete) ! 0)
     = [\<lparr>msg_id = ''m1000'', msg_type = User, body = Content ''rice'', streamId = None\<rparr>,
        \<lparr>msg_id = ''thinking1003'', msg_type = Bot_thinking, body = Content ''Searching'',
         streamId = Some ''stream_1000_ab''\<rparr>,
        \<lparr>msg_id = ''m2000'', msg_type = User, body = Content ''dal'', streamId = None\<rparr>,
        \<lparr>msg_id = ''m3000'', msg_type = User, body = Content ''moong'', streamId = None\<rparr>,
        \<lparr>msg_id = ''thinking3100'', msg_type = Bot_thinking, body = Content ''Found 2 items'',
         streamId = Some ''stream_3000_ef''\<rparr>,
        \<lparr>msg_id = ''m4000'', msg_type = User, body = Content ''urad'', streamId = None\<rparr>]"
  by (simp add: after_frame_value request4_sent_value after_complete_value)

end
